theory Spec2Isabelle
  imports Main "HOL-Library.Multiset" "HOL-Library.Char_ord" "HOL-Library.List_Lexorder"
begin

section \<open>Values of the metadata dictionaries\<close>

text \<open>
  The metadata handled by \<^verbatim>\<open>esmvaltool/diag_scripts/shared/_base.py\<close> is loaded from YAML.
  The values a YAML file yields are modelled: the null value, booleans, integers, (ASCII)
  strings and lists of such values. Floating point numbers and mappings as values are left
  out. Strings are lists of bytes.
\<close>

datatype pyval = PNone | PBool bool | PInt int | PStr string | PList "pyval list"

text \<open>
  Python's \<^verbatim>\<open>==\<close> on these values. A \<^verbatim>\<open>bool\<close> is an \<^verbatim>\<open>int\<close> in Python, so that
  \<^verbatim>\<open>True == 1\<close> and \<^verbatim>\<open>False == 0\<close> hold; lists are equal when they have the same length
  and equal elements; values of different kinds are unequal otherwise.
\<close>

fun int_of_bool :: "bool \<Rightarrow> int" where
  "int_of_bool True = 1"
| "int_of_bool False = 0"

fun py_eq :: "pyval \<Rightarrow> pyval \<Rightarrow> bool"
  and py_eq_list :: "pyval list \<Rightarrow> pyval list \<Rightarrow> bool" where
  "py_eq PNone PNone = True"
| "py_eq (PBool a) (PBool b) = (a = b)"
| "py_eq (PBool a) (PInt j) = (int_of_bool a = j)"
| "py_eq (PInt i) (PBool b) = (i = int_of_bool b)"
| "py_eq (PInt i) (PInt j) = (i = j)"
| "py_eq (PStr s) (PStr t) = (s = t)"
| "py_eq (PList xs) (PList ys) = py_eq_list xs ys"
| "py_eq _ _ = False"
| "py_eq_list [] [] = True"
| "py_eq_list (x # xs) (y # ys) = (py_eq x y \<and> py_eq_list xs ys)"
| "py_eq_list _ _ = False"

text \<open>
  A list cannot be hashed: \<^verbatim>\<open>hash(v)\<close> raises \<^verbatim>\<open>TypeError\<close> for it, and so does every use of
  it as the key of a dictionary. The other values can.
\<close>

fun hashable :: "pyval \<Rightarrow> bool" where
  "hashable (PList xs) = False"
| "hashable v = True"

text \<open>A metadata record is a dictionary from attribute names to values.\<close>

type_synonym attribs = "string \<rightharpoonup> pyval"

section \<open>Selecting metadata\<close>

text \<open>
  \<^verbatim>\<open>select_metadata(metadata, **attributes)\<close>. The keyword arguments are a dictionary, given
  here as the list of its items; \<^verbatim>\<open>for a in attributes\<close> runs over its keys and
  \<^verbatim>\<open>attributes[a]\<close> looks a key up.
\<close>

definition attribute_matches :: "attribs \<Rightarrow> (string \<times> pyval) list \<Rightarrow> string \<Rightarrow> bool" where
  "attribute_matches attribs attributes a =
     (case attribs a of
        None \<Rightarrow> False
      | Some v \<Rightarrow>
          (case map_of attributes a of
             None \<Rightarrow> False
           | Some required \<Rightarrow> py_eq v required \<or> py_eq required (PStr ''*'')))"

fun select_metadata :: "attribs list \<Rightarrow> (string \<times> pyval) list \<Rightarrow> attribs list" where
  "select_metadata [] attributes = []"
| "select_metadata (attribs # metadata) attributes =
     (if list_all (attribute_matches attribs attributes) (map fst attributes)
      then attribs # select_metadata metadata attributes
      else select_metadata metadata attributes)"

section \<open>String representation and lower case\<close>

text \<open>
  The exceptions the modelled code can raise. \<^verbatim>\<open>KeyError\<close> and \<^verbatim>\<open>AssertionError\<close>
  carry their message, the file system errors the path.
\<close>

datatype py_error =
    KeyError string
  | TypeError
  | IndexError
  | AssertionError string
  | FileExistsError string
  | FileNotFoundError string
  | IsADirectoryError string
  | NotADirectoryError string
  | RepresenterError

text \<open>
  \<^verbatim>\<open>repr(v)\<close> and \<^verbatim>\<open>str(v)\<close>: decimal digits for an integer, the constant's name for
  booleans and null. The \<^verbatim>\<open>repr\<close> of a string is quoted, with double quotes when it holds
  a single quote and no double quote, and with the quote, the backslash and the control
  characters escaped; \<^verbatim>\<open>str\<close> of a string is the string. A list is written as the
  \<^verbatim>\<open>repr\<close> of its elements between brackets.
\<close>

definition digit_char :: "nat \<Rightarrow> char" where
  "digit_char d = char_of (48 + d)"

function str_nat :: "nat \<Rightarrow> string" where
  "str_nat n = (if n < 10 then [digit_char n] else str_nat (n div 10) @ [digit_char (n mod 10)])"
  by pat_completeness auto
termination
  by (relation "measure (\<lambda>n. n)") auto

declare str_nat.simps [simp del]

definition str_int :: "int \<Rightarrow> string" where
  "str_int i = (if i < 0 then CHR ''-'' # str_nat (nat (- i)) else str_nat (nat i))"

definition hex_digit :: "nat \<Rightarrow> char" where
  "hex_digit d = (if d < 10 then char_of (48 + d) else char_of (87 + d))"

definition repr_char :: "char \<Rightarrow> char \<Rightarrow> string" where
  "repr_char quote c =
     (if c = quote \<or> c = CHR 0x5C then [CHR 0x5C, c]
      else if c = CHR 0x09 then [CHR 0x5C, CHR ''t'']
      else if c = CHR 0x0A then [CHR 0x5C, CHR ''n'']
      else if c = CHR 0x0D then [CHR 0x5C, CHR ''r'']
      else if c < CHR 0x20 \<or> c = CHR 0x7F
        then [CHR 0x5C, CHR ''x'', hex_digit (of_char c div 16), hex_digit (of_char c mod 16)]
      else [c])"

definition repr_str :: "string \<Rightarrow> string" where
  "repr_str s =
     (let quote = (if CHR 0x27 \<in> set s \<and> CHR 0x22 \<notin> set s then CHR 0x22 else CHR 0x27)
      in quote # concat (map (repr_char quote) s) @ [quote])"

fun join :: "string \<Rightarrow> string list \<Rightarrow> string" where
  "join sep [] = []"
| "join sep [x] = x"
| "join sep (x # y # ys) = x @ sep @ join sep (y # ys)"

fun py_repr :: "pyval \<Rightarrow> string" where
  "py_repr PNone = ''None''"
| "py_repr (PBool True) = ''True''"
| "py_repr (PBool False) = ''False''"
| "py_repr (PInt i) = str_int i"
| "py_repr (PStr s) = repr_str s"
| "py_repr (PList xs) = ''['' @ join '', '' (map py_repr xs) @ '']''"

fun py_str :: "pyval \<Rightarrow> string" where
  "py_str (PStr s) = s"
| "py_str v = py_repr v"

text \<open>\<^verbatim>\<open>s.lower()\<close> on ASCII text: the letters A to Z move to a to z.\<close>

definition lower_char :: "char \<Rightarrow> char" where
  "lower_char c =
     (if CHR ''A'' \<le> c \<and> c \<le> CHR ''Z'' then char_of (of_char c + (32::nat)) else c)"

definition lower :: "string \<Rightarrow> string" where
  "lower s = map lower_char s"

section \<open>Sorting metadata\<close>

text \<open>
  The \<^verbatim>\<open>sort\<close> argument: \<^verbatim>\<open>None\<close>, a boolean, one attribute name or a list of attribute
  names. \<^verbatim>\<open>truthy\<close> is Python's truth value of it, as tested by \<^verbatim>\<open>if sort:\<close>.
\<close>

datatype sort_spec = SortNone | SortBool bool | SortStr string | SortList "string list"

fun truthy :: "sort_spec \<Rightarrow> bool" where
  "truthy SortNone = False"
| "truthy (SortBool b) = b"
| "truthy (SortStr s) = (s \<noteq> [])"
| "truthy (SortList ks) = (ks \<noteq> [])"

text \<open>
  \<^verbatim>\<open>normalized_variable_key\<close>: the tuple of \<^verbatim>\<open>str(attributes.get(k, '')).lower()\<close> for the
  keys \<^verbatim>\<open>k\<close> of \<^verbatim>\<open>sort\<close>. Tuples of strings are lists of strings, compared
  lexicographically as Python compares tuples and strings.
\<close>

definition normalized_variable_key :: "string list \<Rightarrow> attribs \<Rightarrow> string list" where
  "normalized_variable_key sort_by attributes =
     map (\<lambda>k. lower (py_str (case attributes k of None \<Rightarrow> PStr [] | Some v \<Rightarrow> v))) sort_by"

text \<open>
  \<^verbatim>\<open>sorted_metadata(metadata, sort)\<close>. A string becomes the one-element list. Python's
  \<^verbatim>\<open>sorted\<close> is a stable sort by the key; \<^const>\<open>sort_key\<close> is the stable insertion sort.
  For a \<^verbatim>\<open>sort\<close> that is neither a string nor a list the key function raises
  \<^verbatim>\<open>TypeError\<close> at \<^verbatim>\<open>for k in sort\<close>, as soon as it is called on a first record.
\<close>

fun sorted_metadata :: "attribs list \<Rightarrow> sort_spec \<Rightarrow> py_error + attribs list" where
  "sorted_metadata metadata (SortStr s) = Inr (sort_key (normalized_variable_key [s]) metadata)"
| "sorted_metadata metadata (SortList ks) = Inr (sort_key (normalized_variable_key ks) metadata)"
| "sorted_metadata metadata _ = (case metadata of [] \<Rightarrow> Inr [] | _ # _ \<Rightarrow> Inl TypeError)"

section \<open>Grouping metadata\<close>

text \<open>
  The groups are a dictionary from values to lists of records, given as the list of its
  items in insertion order. A key is found by Python's \<^verbatim>\<open>==\<close>. Looking up, testing or
  storing a key hashes it first; the callers below test \<^const>\<open>hashable\<close> before they use
  a key and raise \<^verbatim>\<open>TypeError\<close> otherwise.
\<close>

type_synonym groups = "(pyval \<times> attribs list) list"

definition dict_contains :: "groups \<Rightarrow> pyval \<Rightarrow> bool" where
  "dict_contains groups key = list_ex (\<lambda>(k, _). py_eq k key) groups"

fun dict_get :: "groups \<Rightarrow> pyval \<Rightarrow> attribs list option" where
  "dict_get [] key = None"
| "dict_get ((k, members) # groups) key =
     (if py_eq k key then Some members else dict_get groups key)"

text \<open>\<^verbatim>\<open>groups[key] = members\<close>: replaces the value of a key already there, appends a new key.\<close>

fun dict_set :: "groups \<Rightarrow> pyval \<Rightarrow> attribs list \<Rightarrow> groups" where
  "dict_set [] key members = [(key, members)]"
| "dict_set ((k, old) # groups) key members =
     (if py_eq k key then (k, members) # groups else (k, old) # dict_set groups key members)"

text \<open>
  The body of the loop of \<^verbatim>\<open>group_metadata\<close>:
  \<^verbatim>\<open>key = attributes.get(attribute)\<close>, then \<^verbatim>\<open>groups[key] = []\<close> for a new key, then
  \<^verbatim>\<open>groups[key].append(attributes)\<close>. \<^verbatim>\<open>key not in groups\<close> raises \<^verbatim>\<open>TypeError\<close> for a key
  that cannot be hashed; reading \<^verbatim>\<open>groups[key]\<close> raises \<^verbatim>\<open>KeyError\<close> for a missing key.
\<close>

definition attribute_get :: "attribs \<Rightarrow> string \<Rightarrow> pyval" where
  "attribute_get attributes attribute =
     (case attributes attribute of None \<Rightarrow> PNone | Some v \<Rightarrow> v)"

definition group_step :: "string \<Rightarrow> groups \<Rightarrow> attribs \<Rightarrow> py_error + groups" where
  "group_step attribute groups attributes =
     (let key = attribute_get attributes attribute
      in if \<not> hashable key then Inl TypeError
         else
           let groups1 = (if \<not> dict_contains groups key then dict_set groups key [] else groups)
           in case dict_get groups1 key of
                None \<Rightarrow> Inl (KeyError (py_repr key))
              | Some members \<Rightarrow> Inr (dict_set groups1 key (members @ [attributes])))"

text \<open>The loop \<^verbatim>\<open>for attributes in metadata\<close>; the first exception ends it.\<close>

fun group_loop :: "string \<Rightarrow> groups \<Rightarrow> attribs list \<Rightarrow> py_error + groups" where
  "group_loop attribute groups [] = Inr groups"
| "group_loop attribute groups (attributes # metadata) =
     (case group_step attribute groups attributes of
        Inl e \<Rightarrow> Inl e
      | Inr groups1 \<Rightarrow> group_loop attribute groups1 metadata)"

text \<open>\<^verbatim>\<open>normalized_group_key\<close>: \<^verbatim>\<open>'' if key is None else str(key).lower()\<close>.\<close>

definition normalized_group_key :: "pyval \<Rightarrow> string" where
  "normalized_group_key key = (case key of PNone \<Rightarrow> [] | _ \<Rightarrow> lower (py_str key))"

text \<open>
  \<^verbatim>\<open>sorted_group_metadata(metadata_groups, sort)\<close>: \<^verbatim>\<open>sort is True\<close> turns the sort keys into
  the empty list; the keys of the dictionary are sorted by \<^verbatim>\<open>normalized_group_key\<close> and
  each list is passed through \<^verbatim>\<open>sorted_metadata\<close> into a fresh ordered dictionary.
\<close>

fun sort_groups_loop ::
  "groups \<Rightarrow> sort_spec \<Rightarrow> pyval list \<Rightarrow> groups \<Rightarrow> py_error + groups" where
  "sort_groups_loop metadata_groups sort_by [] groups = Inr groups"
| "sort_groups_loop metadata_groups sort_by (key # keys) groups =
     (if \<not> hashable key then Inl TypeError
      else case dict_get metadata_groups key of
        None \<Rightarrow> Inl (KeyError (py_repr key))
      | Some members \<Rightarrow>
          (case sorted_metadata members sort_by of
             Inl e \<Rightarrow> Inl e
           | Inr sorted_members \<Rightarrow>
               sort_groups_loop metadata_groups sort_by keys (dict_set groups key sorted_members)))"

definition sorted_group_metadata :: "groups \<Rightarrow> sort_spec \<Rightarrow> py_error + groups" where
  "sorted_group_metadata metadata_groups sort_by =
     (let sort1 = (if sort_by = SortBool True then SortList [] else sort_by)
      in sort_groups_loop metadata_groups sort1
           (sort_key normalized_group_key (map fst metadata_groups)) [])"

text \<open>\<^verbatim>\<open>group_metadata(metadata, attribute, sort=None)\<close>.\<close>

definition group_metadata :: "attribs list \<Rightarrow> string \<Rightarrow> sort_spec \<Rightarrow> py_error + groups" where
  "group_metadata metadata attribute sort_by =
     (case group_loop attribute [] metadata of
        Inl e \<Rightarrow> Inl e
      | Inr groups \<Rightarrow>
          if truthy sort_by then sorted_group_metadata groups sort_by else Inr groups)"

section \<open>Paths and the file system\<close>

text \<open>
  \<^verbatim>\<open>os.path.join(a, b)\<close> and \<^verbatim>\<open>os.path.dirname(p)\<close> on POSIX paths.
\<close>

definition os_path_join :: "string \<Rightarrow> string \<Rightarrow> string" where
  "os_path_join a b =
     (if b \<noteq> [] \<and> hd b = CHR ''/'' then b
      else if a = [] \<or> last a = CHR ''/'' then a @ b
      else a @ ''/'' @ b)"

definition rstrip_slash :: "string \<Rightarrow> string" where
  "rstrip_slash s = rev (dropWhile (\<lambda>c. c = CHR ''/'') (rev s))"

definition os_path_dirname :: "string \<Rightarrow> string" where
  "os_path_dirname p =
     (let head = rev (dropWhile (\<lambda>c. c \<noteq> CHR ''/'') (rev p))
      in if head \<noteq> [] \<and> \<not> list_all (\<lambda>c. c = CHR ''/'') head then rstrip_slash head else head)"

text \<open>
  The part of the file system the code reads and writes: the directories that exist and
  the regular files with their contents. A path is identified with its spelling. Each
  operation returns the exception it raises, if any, and the file system it leaves.
  The operations fail as the Python library documents it: \<^verbatim>\<open>os.makedirs\<close> on a path that
  exists, on the empty path and below a regular file; \<^verbatim>\<open>open(p, 'w')\<close> on a directory,
  below a regular file and in a directory that does not exist; \<^verbatim>\<open>open(p, 'r')\<close> on a
  missing file; \<^verbatim>\<open>shutil.rmtree\<close> on anything but a directory.
\<close>

record 'c file_system =
  dirs :: "string set"
  files :: "string \<rightharpoonup> 'c"

definition os_path_exists :: "'c file_system \<Rightarrow> string \<Rightarrow> bool" where
  "os_path_exists fs p = (p \<noteq> [] \<and> (p \<in> dirs fs \<or> files fs p \<noteq> None))"

text \<open>
  The directories above a path, nearest first: \<^verbatim>\<open>os.path.dirname\<close> applied again and again
  until it gives the empty string or no shorter path.
\<close>

function ancestors :: "string \<Rightarrow> string list" where
  "ancestors p =
     (let d = os_path_dirname p
      in if d = [] \<or> length p \<le> length d then [] else d # ancestors d)"
  by pat_completeness auto
termination
  by (relation "measure length") auto

declare ancestors.simps [simp del]

text \<open>
  \<^verbatim>\<open>os.makedirs(p)\<close> creates the directory and the directories above it that are missing.
\<close>

definition os_makedirs :: "string \<Rightarrow> 'c file_system \<Rightarrow> py_error option \<times> 'c file_system" where
  "os_makedirs p fs =
     (if p = [] then (Some (FileNotFoundError p), fs)
      else if p \<in> dirs fs \<or> files fs p \<noteq> None then (Some (FileExistsError p), fs)
      else if list_ex (\<lambda>d. files fs d \<noteq> None) (ancestors p)
        then (Some (NotADirectoryError p), fs)
      else (None, fs\<lparr>dirs := insert p (dirs fs) \<union> set (ancestors p)\<rparr>))"

definition open_write :: "string \<Rightarrow> 'c \<Rightarrow> 'c file_system \<Rightarrow> py_error option \<times> 'c file_system" where
  "open_write p c fs =
     (if p \<in> dirs fs then (Some (IsADirectoryError p), fs)
      else if os_path_dirname p \<noteq> [] \<and> files fs (os_path_dirname p) \<noteq> None
        then (Some (NotADirectoryError p), fs)
      else if os_path_dirname p \<noteq> [] \<and> os_path_dirname p \<notin> dirs fs
        then (Some (FileNotFoundError p), fs)
      else (None, fs\<lparr>files := (files fs)(p \<mapsto> c)\<rparr>))"

definition open_read :: "string \<Rightarrow> 'c file_system \<Rightarrow> py_error + 'c" where
  "open_read p fs =
     (if p \<in> dirs fs then Inl (IsADirectoryError p)
      else case files fs p of None \<Rightarrow> Inl (FileNotFoundError p) | Some c \<Rightarrow> Inr c)"

definition is_under :: "string \<Rightarrow> string \<Rightarrow> bool" where
  "is_under d p =
     (let d1 = (if d \<noteq> [] \<and> last d = CHR ''/'' then d else d @ ''/'')
      in p = d \<or> take (length d1) p = d1)"

definition shutil_rmtree :: "string \<Rightarrow> 'c file_system \<Rightarrow> py_error option \<times> 'c file_system" where
  "shutil_rmtree d fs =
     (if d \<in> dirs fs
        then (None, fs\<lparr>dirs := Set.filter (\<lambda>p. \<not> is_under d p) (dirs fs),
                        files := (\<lambda>p. if is_under d p then None else files fs p)\<rparr>)
      else if files fs d \<noteq> None then (Some (NotADirectoryError d), fs)
      else (Some (FileNotFoundError d), fs))"

section \<open>The provenance logger\<close>

text \<open>
  The configuration dictionary, with the keys the modelled code reads.
\<close>

record cfg =
  work_dir :: string
  plot_dir :: string
  write_netcdf :: bool
  write_plots :: bool

text \<open>
  What \<^verbatim>\<open>yaml.safe_load\<close> makes of the log file: \<^verbatim>\<open>None\<close> for an empty file or a null
  document, a dictionary for a mapping. The provenance records are of any type \<^typ>\<open>'r\<close>.
\<close>

datatype 'r yaml = Null | Mapping "string \<rightharpoonup> 'r"

text \<open>
  A \<^verbatim>\<open>ProvenanceLogger\<close> object with a dictionary as its table: \<^verbatim>\<open>self._log_file\<close> and
  \<^verbatim>\<open>self.table\<close>.
\<close>

record 'r provenance_logger =
  log_file :: string
  table :: "string \<rightharpoonup> 'r"

text \<open>
  \<^verbatim>\<open>__init__\<close> stores whatever \<^verbatim>\<open>yaml.safe_load\<close> returns, so that the table of the object
  can be \<^verbatim>\<open>None\<close> as well; \<^verbatim>\<open>Logger_null\<close> is such an object, with its \<^verbatim>\<open>_log_file\<close>.
\<close>

datatype 'r logger = Logger "'r provenance_logger" | Logger_null string

fun logger_file :: "'r logger \<Rightarrow> string" where
  "logger_file (Logger self) = log_file self"
| "logger_file (Logger_null path) = path"

definition ProvenanceLogger_init ::
  "cfg \<Rightarrow> 'r yaml file_system \<Rightarrow> py_error + 'r logger" where
  "ProvenanceLogger_init c fs =
     (let path = os_path_join (work_dir c) ''diagnostic_provenance.yml''
      in if \<not> os_path_exists fs path then Inr (Logger \<lparr>log_file = path, table = Map.empty\<rparr>)
         else case open_read path fs of
                Inl e \<Rightarrow> Inl e
              | Inr Null \<Rightarrow> Inr (Logger_null path)
              | Inr (Mapping t) \<Rightarrow> Inr (Logger \<lparr>log_file = path, table = t\<rparr>))"

text \<open>
  \<^verbatim>\<open>log(self, filename, record)\<close> returns the exception raised, if any, and the object as
  the call leaves it.
\<close>

definition ProvenanceLogger_log ::
  "string \<Rightarrow> 'r \<Rightarrow> 'r provenance_logger \<Rightarrow> py_error option \<times> 'r provenance_logger" where
  "ProvenanceLogger_log filename record self =
     (if table self filename \<noteq> None
        then (Some (KeyError (''Provenance record for '' @ filename @ '' already exists.'')), self)
      else (None, self\<lparr>table := (table self)(filename \<mapsto> record)\<rparr>))"

text \<open>
  On an object whose table is \<^verbatim>\<open>None\<close> the test \<^verbatim>\<open>filename in self.table\<close> raises
  \<^verbatim>\<open>TypeError\<close>.
\<close>

fun logger_log :: "string \<Rightarrow> 'r \<Rightarrow> 'r logger \<Rightarrow> py_error option \<times> 'r logger" where
  "logger_log filename record (Logger self) =
     (case ProvenanceLogger_log filename record self of (exc, self1) \<Rightarrow> (exc, Logger self1))"
| "logger_log filename record (Logger_null path) = (Some TypeError, Logger_null path)"

text \<open>
  \<^verbatim>\<open>yaml.safe_dump(self.table, file)\<close> raises \<^verbatim>\<open>RepresenterError\<close> for a table it cannot
  represent; which tables it can represent is the argument \<open>representable\<close>. \<^verbatim>\<open>None\<close> is
  written as a null document.
\<close>

definition yaml_safe_dump :: "((string \<rightharpoonup> 'r) \<Rightarrow> bool) \<Rightarrow> 'r logger \<Rightarrow> py_error + 'r yaml" where
  "yaml_safe_dump representable obj =
     (case obj of
        Logger_null path \<Rightarrow> Inr Null
      | Logger self \<Rightarrow>
          if representable (table self) then Inr (Mapping (table self)) else Inl RepresenterError)"

text \<open>
  \<^verbatim>\<open>_save\<close>: \<^verbatim>\<open>open(self._log_file, 'w')\<close> leaves an empty file, which reads as \<^verbatim>\<open>None\<close>,
  before \<^verbatim>\<open>yaml.safe_dump\<close> writes to it.
\<close>

definition ProvenanceLogger_save ::
  "((string \<rightharpoonup> 'r) \<Rightarrow> bool) \<Rightarrow> 'r logger \<Rightarrow> 'r yaml file_system
     \<Rightarrow> py_error option \<times> 'r yaml file_system" where
  "ProvenanceLogger_save representable obj fs =
     (let dirname = os_path_dirname (logger_file obj)
      in case (if \<not> os_path_exists fs dirname then os_makedirs dirname fs else (None, fs)) of
           (Some e, fs1) \<Rightarrow> (Some e, fs1)
         | (None, fs1) \<Rightarrow>
             (case open_write (logger_file obj) Null fs1 of
                (Some e, fs2) \<Rightarrow> (Some e, fs2)
              | (None, fs2) \<Rightarrow>
                  (case yaml_safe_dump representable obj of
                     Inl e \<Rightarrow> (Some e, fs2)
                   | Inr document \<Rightarrow>
                       (None, fs2\<lparr>files := (files fs2)(logger_file obj \<mapsto> document)\<rparr>))))"

text \<open>
  \<^verbatim>\<open>__exit__(self, *_)\<close> is given the exception that ends the scope, or none, and saves
  whatever it is given.
\<close>

definition ProvenanceLogger_exit ::
  "((string \<rightharpoonup> 'r) \<Rightarrow> bool) \<Rightarrow> 'r logger \<Rightarrow> py_error option \<Rightarrow> 'r yaml file_system
     \<Rightarrow> py_error option \<times> 'r yaml file_system" where
  "ProvenanceLogger_exit representable obj exc fs = ProvenanceLogger_save representable obj fs"

text \<open>
  A scope \<^verbatim>\<open>with ProvenanceLogger(cfg) as provenance_logger:\<close> whose body makes the given
  \<^verbatim>\<open>log\<close> calls one after the other, as in the docstring of the class. The first call that
  raises ends the body; \<^verbatim>\<open>__exit__\<close> runs in either case and, as it returns nothing, the
  exception of the body goes on to the caller.
\<close>

fun log_calls :: "'r logger \<Rightarrow> (string \<times> 'r) list \<Rightarrow> py_error option \<times> 'r logger" where
  "log_calls obj [] = (None, obj)"
| "log_calls obj ((filename, record) # calls) =
     (case logger_log filename record obj of
        (Some e, obj1) \<Rightarrow> (Some e, obj1)
      | (None, obj1) \<Rightarrow> log_calls obj1 calls)"

definition with_ProvenanceLogger ::
  "((string \<rightharpoonup> 'r) \<Rightarrow> bool) \<Rightarrow> cfg \<Rightarrow> (string \<times> 'r) list \<Rightarrow> 'r yaml file_system
     \<Rightarrow> py_error option \<times> 'r yaml file_system" where
  "with_ProvenanceLogger representable c calls fs =
     (case ProvenanceLogger_init c fs of
        Inl e \<Rightarrow> (Some e, fs)
      | Inr obj \<Rightarrow>
          (case log_calls obj calls of
             (exc, obj1) \<Rightarrow>
               (case ProvenanceLogger_exit representable obj1 exc fs of
                  (Some e, fs1) \<Rightarrow> (Some e, fs1)
                | (None, fs1) \<Rightarrow> (exc, fs1))))"

section \<open>Setting up the output directories\<close>

text \<open>
  The part of \<^verbatim>\<open>run_diagnostic\<close> from \<^verbatim>\<open># Create output directories\<close> to \<^verbatim>\<open>yield cfg\<close>:
  the parsed command line flags, the messages sent to the logger, and the file system.
  The result \<^const>\<open>None\<close> stands for reaching \<^verbatim>\<open>yield cfg\<close>.
\<close>

record args =
  force :: bool
  ignore_existing :: bool

datatype log_message =
    Info_Removing string
  | Info_Creating string
  | Error_Script_will_abort "string list"

fun remove_existing ::
  "string list \<Rightarrow> 'c file_system \<times> log_message list
     \<Rightarrow> py_error option \<times> 'c file_system \<times> log_message list" where
  "remove_existing [] st = (None, st)"
| "remove_existing (output_directory # existing) (fs, logged) =
     (case shutil_rmtree output_directory fs of
        (Some e, fs1) \<Rightarrow> (Some e, fs1, logged @ [Info_Removing output_directory])
      | (None, fs1) \<Rightarrow>
          remove_existing existing (fs1, logged @ [Info_Removing output_directory]))"

fun create_directories ::
  "bool \<Rightarrow> string list \<Rightarrow> 'c file_system \<times> log_message list
     \<Rightarrow> py_error option \<times> 'c file_system \<times> log_message list" where
  "create_directories ignore [] st = (None, st)"
| "create_directories ignore (output_directory # output_directories) (fs, logged) =
     (if ignore \<and> os_path_exists fs output_directory
        then create_directories ignore output_directories
               (fs, logged @ [Info_Creating output_directory])
      else case os_makedirs output_directory fs of
             (Some e, fs1) \<Rightarrow> (Some e, fs1, logged @ [Info_Creating output_directory])
           | (None, fs1) \<Rightarrow>
               create_directories ignore output_directories
                 (fs1, logged @ [Info_Creating output_directory]))"

definition output_directories :: "cfg \<Rightarrow> string list" where
  "output_directories c =
     (if write_netcdf c then [work_dir c] else []) @ (if write_plots c then [plot_dir c] else [])"

definition run_diagnostic ::
  "cfg \<Rightarrow> args \<Rightarrow> 'c file_system \<Rightarrow> py_error option \<times> 'c file_system \<times> log_message list" where
  "run_diagnostic c a fs =
     (let existing = filter (os_path_exists fs) (output_directories c);
          cleared =
            (if existing \<noteq> [] then
               (if force a then remove_existing existing (fs, [])
                else if \<not> ignore_existing a
                  then (None, fs, [Error_Script_will_abort existing])
                else (None, fs, []))
             else (None, fs, []))
      in case cleared of
           (Some e, st) \<Rightarrow> (Some e, st)
         | (None, st) \<Rightarrow> create_directories (ignore_existing a) (output_directories c) st)"

section \<open>Loading the observations of the albedo and land cover diagnostics\<close>

text \<open>
  \<^verbatim>\<open>_load_observation_data\<close> of \<^verbatim>\<open>AlbedoDiagnostic\<close> and of \<^verbatim>\<open>LandCoverDiagnostic\<close>. The
  attributes of the object that the method reads and writes are \<^verbatim>\<open>_ref_file\<close>,
  \<^verbatim>\<open>_work_dir\<close>, \<^verbatim>\<open>var\<close> and \<^verbatim>\<open>_ref_data\<close>. The sizes of the dimensions \<^verbatim>\<open>lat\<close> and \<^verbatim>\<open>lon\<close>
  read from the reference file are arguments. \<^verbatim>\<open>_load_cci_generic\<close> belongs to the base
  class and is an argument as well. Building the regridded file touches files only and
  is left out.
\<close>

record 'd diagnostic =
  ref_file :: string
  diag_work_dir :: string
  var :: string
  ref_data :: "('d \<times> string option) option"

text \<open>\<^verbatim>\<open>s.split("/")[-1]\<close>: what follows the last slash.\<close>

definition last_component :: "string \<Rightarrow> string" where
  "last_component s = rev (takeWhile (\<lambda>c. c \<noteq> CHR ''/'') (rev s))"

text \<open>
  The name of the regridded file; \<^verbatim>\<open>self._work_dir[-1]\<close> raises \<^verbatim>\<open>IndexError\<close> on the empty
  string.
\<close>

definition T63_file :: "string \<Rightarrow> string \<Rightarrow> string \<Rightarrow> py_error + string" where
  "T63_file wd rf aux =
     (if wd = [] then Inl IndexError
      else let newdir = (if last wd = CHR ''/'' then wd else wd @ ''/'') @ aux
           in Inr (newdir @ ''/'' @ last_component (rf @ ''.T63built.nc'')))"

definition known_grid :: "int \<Rightarrow> int \<Rightarrow> bool" where
  "known_grid lat lon =
     ((lat = 96 \<and> lon = 192) \<or> (lat = 6 \<and> lon = 12) \<or> (lat = 18 \<and> lon = 36))"

definition alb_load_observation_data ::
  "(string \<Rightarrow> string \<Rightarrow> 'd) \<Rightarrow> int \<Rightarrow> int \<Rightarrow> string \<Rightarrow> 'd diagnostic
     \<Rightarrow> py_error option \<times> 'd diagnostic" where
  "alb_load_observation_data load_cci_generic lat lon proj_var self =
     (case T63_file (diag_work_dir self) (ref_file self) ''AUX_Files_alb_QA4ECV'' of
        Inl e \<Rightarrow> (Some e, self)
      | Inr newfile \<Rightarrow>
          (let self1 = (if \<not> known_grid lat lon then self\<lparr>ref_file := newfile\<rparr> else self)
           in if proj_var = ''alb''
                then (None, self1\<lparr>ref_data :=
                        Some (load_cci_generic (ref_file self1) proj_var, Some ''-'')\<rparr>)
              else (Some (AssertionError ''Not supported yet''), self1)))"

definition lc_load_observation_data ::
  "(string \<Rightarrow> string \<Rightarrow> 'd) \<Rightarrow> int \<Rightarrow> int \<Rightarrow> 'd diagnostic
     \<Rightarrow> py_error option \<times> 'd diagnostic" where
  "lc_load_observation_data load_cci_generic lat lon self =
     (case T63_file (diag_work_dir self) (ref_file self) ''AUX_Files_lc_ESACCI'' of
        Inl e \<Rightarrow> (Some e, self)
      | Inr newfile \<Rightarrow>
          (let self1 = (if \<not> known_grid lat lon then self\<lparr>ref_file := newfile\<rparr> else self)
           in if var self1 \<in> set [''baresoilFrac'', ''grassNcropFrac'', ''shrubNtreeFrac'']
                then (None, self1\<lparr>ref_data :=
                        Some (load_cci_generic (ref_file self1) (var self1), None)\<rparr>)
              else (Some (AssertionError ''Not supported yet''), self1)))"

section \<open>Notions of the specification\<close>

text \<open>
  A record satisfies a set of constraints when every constrained attribute is present and
  its value equals the required value or the required value is the wildcard.
\<close>

definition satisfies :: "attribs \<Rightarrow> (string \<times> pyval) list \<Rightarrow> bool" where
  "satisfies r attributes =
     (\<forall>a required. map_of attributes a = Some required \<longrightarrow>
        (\<exists>v. r a = Some v \<and> (py_eq v required \<or> required = PStr ''*'')))"

text \<open>The keys of a dictionary can be hashed and are pairwise unequal.\<close>

fun dict_ok :: "groups \<Rightarrow> bool" where
  "dict_ok [] = True"
| "dict_ok ((k, members) # groups) =
     (hashable k \<and> \<not> dict_contains groups k \<and> dict_ok groups)"

text \<open>The values of a list in the order of their first occurrence.\<close>

primrec first_occurrences :: "pyval list \<Rightarrow> pyval list" where
  "first_occurrences [] = []"
| "first_occurrences (k # ks) = k # filter (\<lambda>k'. \<not> py_eq k k') (first_occurrences ks)"

text \<open>
  The grouping as the specification words it: each distinct value of the attribute, in
  the order of first occurrence, with the records sharing that value, in their order.
\<close>

definition group_spec :: "string \<Rightarrow> attribs list \<Rightarrow> groups" where
  "group_spec attribute metadata =
     map (\<lambda>k. (k, filter (\<lambda>r. py_eq k (attribute_get r attribute)) metadata))
       (first_occurrences (map (\<lambda>r. attribute_get r attribute) metadata))"

text \<open>
  The string representation of an attribute, the empty string when it is missing, and the
  sort key of the specification: the lower case string representations of the requested
  attributes.
\<close>

definition attribute_string :: "attribs \<Rightarrow> string \<Rightarrow> string" where
  "attribute_string r k = (case r k of None \<Rightarrow> [] | Some v \<Rightarrow> py_str v)"

definition lowercase_key :: "string list \<Rightarrow> attribs \<Rightarrow> string list" where
  "lowercase_key ks r = map (\<lambda>k. lower (attribute_string r k)) ks"

section \<open>Selection\<close>

lemma py_eq_star: "py_eq required (PStr ''*'') = (required = PStr ''*'')"
  by (cases required) auto

lemma list_all_matches_iff:
  "list_all (attribute_matches r attributes) (map fst attributes) = satisfies r attributes"
proof
  assume all: "list_all (attribute_matches r attributes) (map fst attributes)"
  show "satisfies r attributes"
    unfolding satisfies_def
  proof (intro allI impI)
    fix a required
    assume look: "map_of attributes a = Some required"
    then have "a \<in> set (map fst attributes)"
      by (metis map_of_eq_None_iff option.distinct(1) set_map)
    with all have "attribute_matches r attributes a"
      by (auto simp: list_all_iff)
    with look show "\<exists>v. r a = Some v \<and> (py_eq v required \<or> required = PStr ''*'')"
      by (auto simp: attribute_matches_def py_eq_star split: option.splits)
  qed
next
  assume sat: "satisfies r attributes"
  show "list_all (attribute_matches r attributes) (map fst attributes)"
    unfolding list_all_iff
  proof
    fix a
    assume "a \<in> set (map fst attributes)"
    then obtain required where look: "map_of attributes a = Some required"
      by (metis map_of_eq_None_iff not_None_eq set_map)
    with sat obtain v where "r a = Some v" "py_eq v required \<or> required = PStr ''*''"
      unfolding satisfies_def by blast
    with look show "attribute_matches r attributes a"
      by (auto simp: attribute_matches_def py_eq_star)
  qed
qed

lemma select_metadata_filter:
  "select_metadata metadata attributes = filter (\<lambda>r. satisfies r attributes) metadata"
  by (induction metadata) (simp_all add: list_all_matches_iff)

text \<open>
  C1: \<^verbatim>\<open>select_metadata\<close> returns exactly the records in which every constrained
  attribute is present and its value equals the required value or the required value is the
  wildcard \<^verbatim>\<open>'*'\<close>, in the order of the input; no record failing a constraint is
  returned; a wildcard constraint matches any record that has the attribute at all; and with
  no constraint every record is returned.
\<close>

theorem select_metadata_exact:
  "select_metadata metadata attributes = filter (\<lambda>r. satisfies r attributes) metadata
   \<and> (\<forall>r \<in> set (select_metadata metadata attributes). satisfies r attributes)
   \<and> (\<forall>r \<in> set metadata. \<not> satisfies r attributes \<longrightarrow>
          r \<notin> set (select_metadata metadata attributes))
   \<and> (\<forall>r \<in> set metadata. \<forall>a. r a \<noteq> None \<longrightarrow>
          r \<in> set (select_metadata metadata [(a, PStr ''*'')]))
   \<and> select_metadata metadata [] = metadata"
proof (intro conjI)
  show "select_metadata metadata attributes = filter (\<lambda>r. satisfies r attributes) metadata"
    by (rule select_metadata_filter)
  show "\<forall>r \<in> set (select_metadata metadata attributes). satisfies r attributes"
    by (simp add: select_metadata_filter)
  show "\<forall>r \<in> set metadata. \<not> satisfies r attributes \<longrightarrow>
          r \<notin> set (select_metadata metadata attributes)"
    by (simp add: select_metadata_filter)
  show "\<forall>r \<in> set metadata. \<forall>a. r a \<noteq> None \<longrightarrow>
          r \<in> set (select_metadata metadata [(a, PStr ''*'')])"
    by (auto simp: select_metadata_filter satisfies_def)
  show "select_metadata metadata [] = metadata"
    by (simp add: select_metadata_filter satisfies_def)
qed


theorem select_metadata_exact_witness:
  "select_metadata [[''a'' \<mapsto> PInt 1], Map.empty] [(''a'', PInt 1)] = [[''a'' \<mapsto> PInt 1]]
   \<and> select_metadata [[''a'' \<mapsto> PInt 1], Map.empty] [(''a'', PStr ''*'')] \<noteq> []"
proof -
  have sat: "satisfies [''a'' \<mapsto> PInt 1] [(''a'', PInt 1)]"
    by (simp add: satisfies_def)
  have nsat: "\<not> satisfies Map.empty [(''a'', PInt 1)]"
    by (simp add: satisfies_def)
  note inst = select_metadata_exact [of "[[''a'' \<mapsto> PInt 1], Map.empty]" "[(''a'', PInt 1)]"]
  from inst have "select_metadata [[''a'' \<mapsto> PInt 1], Map.empty] [(''a'', PInt 1)] =
      filter (\<lambda>r. satisfies r [(''a'', PInt 1)]) [[''a'' \<mapsto> PInt 1], Map.empty]"
    by (rule conjunct1)
  then have first: "select_metadata [[''a'' \<mapsto> PInt 1], Map.empty] [(''a'', PInt 1)] =
      [[''a'' \<mapsto> PInt 1]]"
    using sat nsat by simp
  from inst have "\<forall>r \<in> set [[''a'' \<mapsto> PInt 1], Map.empty]. \<forall>a. r a \<noteq> None \<longrightarrow>
      r \<in> set (select_metadata [[''a'' \<mapsto> PInt 1], Map.empty] [(a, PStr ''*'')])"
    by blast
  then have "[''a'' \<mapsto> PInt 1] \<in>
      set (select_metadata [[''a'' \<mapsto> PInt 1], Map.empty] [(''a'', PStr ''*'')])"
    by simp
  then have "select_metadata [[''a'' \<mapsto> PInt 1], Map.empty] [(''a'', PStr ''*'')] \<noteq> []"
    by force
  with first show ?thesis by (rule conjI)
qed

section \<open>Grouping\<close>

lemma py_eq_list_refl_aux: "(\<And>x. x \<in> set vs \<Longrightarrow> py_eq x x) \<Longrightarrow> py_eq_list vs vs"
  by (induction vs) simp_all

lemma py_eq_refl [simp]: "py_eq v v"
  by (induction v) (simp_all add: py_eq_list_refl_aux)

lemma py_eq_sym: "py_eq v w = py_eq w v" and py_eq_list_sym: "py_eq_list vs ws = py_eq_list ws vs"
  by (induction v w and vs ws rule: py_eq_py_eq_list.induct) auto

lemma int_of_bool_inj: "(int_of_bool a = int_of_bool b) = (a = b)"
  by (cases a; cases b) simp_all

lemma py_eq_list_trans_aux:
  "(\<forall>x \<in> set us. \<forall>v w. py_eq x v \<longrightarrow> py_eq v w \<longrightarrow> py_eq x w) \<Longrightarrow>
   py_eq_list us vs \<Longrightarrow> py_eq_list vs ws \<Longrightarrow> py_eq_list us ws"
proof (induction us arbitrary: vs ws)
  case Nil
  from Nil.prems(2) have "vs = []" by (cases vs) simp_all
  with Nil.prems(3) have "ws = []" by (cases ws) simp_all
  then show ?case by simp
next
  case (Cons u us)
  from Cons.prems(2) obtain v vs' where vs: "vs = v # vs'" by (cases vs) simp_all
  from Cons.prems(3) vs obtain w ws' where ws: "ws = w # ws'" by (cases ws) simp_all
  from Cons.prems(2) vs have uv: "py_eq u v" and t1: "py_eq_list us vs'" by simp_all
  from Cons.prems(3) vs ws have vw: "py_eq v w" and t2: "py_eq_list vs' ws'" by simp_all
  from Cons.prems(1) have el: "\<forall>v w. py_eq u v \<longrightarrow> py_eq v w \<longrightarrow> py_eq u w"
    and rest: "\<forall>x \<in> set us. \<forall>v w. py_eq x v \<longrightarrow> py_eq v w \<longrightarrow> py_eq x w"
    by simp_all
  from el uv vw have "py_eq u w" by blast
  moreover from rest t1 t2 have "py_eq_list us ws'" by (rule Cons.IH)
  ultimately show ?case unfolding ws by simp
qed

lemma py_eq_trans_all: "\<forall>v w. py_eq u v \<longrightarrow> py_eq v w \<longrightarrow> py_eq u w"
proof (induction u)
  case PNone
  show ?case
  proof (intro allI impI)
    fix v w assume "py_eq PNone v" "py_eq v w"
    then show "py_eq PNone w" by (cases v; cases w) simp_all
  qed
next
  case (PBool b)
  show ?case
  proof (intro allI impI)
    fix v w assume "py_eq (PBool b) v" "py_eq v w"
    then show "py_eq (PBool b) w" by (cases v; cases w) (auto simp: int_of_bool_inj)
  qed
next
  case (PInt i)
  show ?case
  proof (intro allI impI)
    fix v w assume "py_eq (PInt i) v" "py_eq v w"
    then show "py_eq (PInt i) w" by (cases v; cases w) (auto simp: int_of_bool_inj)
  qed
next
  case (PStr s)
  show ?case
  proof (intro allI impI)
    fix v w assume "py_eq (PStr s) v" "py_eq v w"
    then show "py_eq (PStr s) w" by (cases v; cases w) simp_all
  qed
next
  case (PList us)
  then have el: "\<forall>x \<in> set us. \<forall>v w. py_eq x v \<longrightarrow> py_eq v w \<longrightarrow> py_eq x w"
    by blast
  show ?case
  proof (intro allI impI)
    fix v w assume a: "py_eq (PList us) v" "py_eq v w"
    from a(1) obtain vs where v: "v = PList vs" by (cases v) simp_all
    from a(2) v obtain ws where w: "w = PList ws" by (cases w) simp_all
    from a v w have "py_eq_list us vs" "py_eq_list vs ws" by simp_all
    with el have "py_eq_list us ws" by (rule py_eq_list_trans_aux)
    then show "py_eq (PList us) w" unfolding w by simp
  qed
qed

lemma py_eq_trans: "py_eq u v \<Longrightarrow> py_eq v w \<Longrightarrow> py_eq u w"
  using py_eq_trans_all by blast

lemma dict_contains_Nil [simp]: "\<not> dict_contains [] key"
  by (simp add: dict_contains_def)

lemma dict_contains_Cons [simp]:
  "dict_contains ((k, members) # groups) key = (py_eq k key \<or> dict_contains groups key)"
  by (simp add: dict_contains_def)

lemma dict_contains_append [simp]:
  "dict_contains (g @ h) key = (dict_contains g key \<or> dict_contains h key)"
  by (simp add: dict_contains_def)

lemma dict_contains_iff: "dict_contains groups key = (\<exists>k \<in> set (map fst groups). py_eq k key)"
  by (induction groups) auto

lemma dict_set_new: "\<not> dict_contains groups key \<Longrightarrow> dict_set groups key ms = groups @ [(key, ms)]"
  by (induction groups) auto

lemma dict_get_None_iff: "dict_get groups key = None \<longleftrightarrow> \<not> dict_contains groups key"
  by (induction groups) (auto split: if_splits)

lemma set_first_occurrences: "set (first_occurrences ks) \<subseteq> set ks"
  by (induction ks) auto

lemma first_occurrences_covers:
  "k \<in> set ks \<Longrightarrow> \<exists>k' \<in> set (first_occurrences ks). py_eq k' k"
proof (induction ks)
  case Nil then show ?case by simp
next
  case (Cons a ks)
  show ?case
  proof (cases "py_eq a k")
    case True then show ?thesis by simp
  next
    case False
    with Cons.prems have "k \<in> set ks" by auto
    then obtain k' where k': "k' \<in> set (first_occurrences ks)" "py_eq k' k"
      using Cons.IH by blast
    have "\<not> py_eq a k'"
      using False k'(2) py_eq_trans by blast
    with k' show ?thesis by auto
  qed
qed

lemma first_occurrences_snoc:
  "first_occurrences (ks @ [k]) =
     (if \<exists>k' \<in> set ks. py_eq k' k then first_occurrences ks else first_occurrences ks @ [k])"
proof (induction ks)
  case Nil then show ?case by simp
next
  case (Cons a ks)
  show ?case
  proof (cases "py_eq a k")
    case True
    then show ?thesis using Cons.IH by (auto)
  next
    case False
    then show ?thesis using Cons.IH by (auto simp: py_eq_sym)
  qed
qed

lemma group_step_unhashable:
  "\<not> hashable (attribute_get x attribute) \<Longrightarrow> group_step attribute groups x = Inl TypeError"
  by (simp add: group_step_def Let_def)

lemma group_step_new:
  assumes "hashable (attribute_get x attribute)"
    and "\<not> dict_contains groups (attribute_get x attribute)"
  shows "group_step attribute groups x = Inr (groups @ [(attribute_get x attribute, [x])])"
proof -
  let ?key = "attribute_get x attribute"
  have get: "dict_get (groups @ [(?key, [])]) ?key = Some []"
    using assms(2) by (induction groups) auto
  have set: "dict_set (groups @ [(?key, [])]) ?key [x] = groups @ [(?key, [x])]"
    using assms(2) by (induction groups) auto
  show ?thesis
    using assms get set by (simp add: group_step_def Let_def dict_set_new)
qed

lemma group_step_old:
  assumes "hashable (attribute_get x attribute)"
    and "dict_get groups (attribute_get x attribute) = Some members"
  shows "group_step attribute groups x =
           Inr (dict_set groups (attribute_get x attribute) (members @ [x]))"
  using assms by (simp add: group_step_def Let_def dict_get_None_iff [symmetric])

lemma group_step_error: "group_step attribute groups x = Inl e \<Longrightarrow> e = TypeError"
proof (cases "hashable (attribute_get x attribute)")
  case False
  assume "group_step attribute groups x = Inl e"
  with False show ?thesis by (simp add: group_step_unhashable)
next
  case True
  assume err: "group_step attribute groups x = Inl e"
  show ?thesis
  proof (cases "dict_get groups (attribute_get x attribute)")
    case None
    then have "\<not> dict_contains groups (attribute_get x attribute)"
      by (simp add: dict_get_None_iff)
    with True err show ?thesis by (simp add: group_step_new)
  next
    case (Some members)
    with True err show ?thesis by (simp add: group_step_old)
  qed
qed

text \<open>A dictionary whose keys are pairwise unequal, each with the value \<open>f k\<close>.\<close>

lemma dict_get_map:
  assumes "k \<in> set ks" "py_eq k key" "\<forall>k' \<in> set ks. py_eq k' key \<longrightarrow> k' = k"
  shows "dict_get (map (\<lambda>k. (k, f k)) ks) key = Some (f k)"
  using assms
proof (induction ks)
  case Nil
  then show ?case by simp
next
  case (Cons a ks)
  show ?case
  proof (cases "py_eq a key")
    case True
    then have "a = k" using Cons.prems(3) by simp
    with True show ?thesis by simp
  next
    case False
    with Cons.prems(2) have "k \<noteq> a" by auto
    with Cons.prems(1) have "k \<in> set ks" by simp
    moreover have "\<forall>k' \<in> set ks. py_eq k' key \<longrightarrow> k' = k"
      using Cons.prems(3) by simp
    ultimately have "dict_get (map (\<lambda>k. (k, f k)) ks) key = Some (f k)"
      using Cons.prems(2) by (intro Cons.IH)
    with False show ?thesis by simp
  qed
qed

lemma dict_set_map:
  assumes "k \<in> set ks" "py_eq k key" "\<forall>k' \<in> set ks. py_eq k' key \<longrightarrow> k' = k"
    and "distinct ks"
  shows "dict_set (map (\<lambda>k. (k, f k)) ks) key ms =
         map (\<lambda>k'. (k', if k' = k then ms else f k')) ks"
  using assms
proof (induction ks)
  case Nil
  then show ?case by simp
next
  case (Cons a ks)
  show ?case
  proof (cases "py_eq a key")
    case True
    then have a: "a = k" using Cons.prems(3) by simp
    then have "k \<notin> set ks" using Cons.prems(4) by simp
    then have "map (\<lambda>k'. (k', if k' = k then ms else f k')) ks = map (\<lambda>k. (k, f k)) ks"
      by (intro map_cong) auto
    with True a show ?thesis by simp
  next
    case False
    with Cons.prems(2) have ne: "k \<noteq> a" by auto
    with Cons.prems(1) have "k \<in> set ks" by simp
    moreover have "\<forall>k' \<in> set ks. py_eq k' key \<longrightarrow> k' = k"
      using Cons.prems(3) by simp
    moreover have "distinct ks" using Cons.prems(4) by simp
    ultimately have "dict_set (map (\<lambda>k. (k, f k)) ks) key ms =
         map (\<lambda>k'. (k', if k' = k then ms else f k')) ks"
      using Cons.prems(2) by (intro Cons.IH)
    with False ne show ?thesis by simp
  qed
qed

lemma first_occurrences_not_eq:
  "k \<in> set (first_occurrences ks) \<Longrightarrow> k' \<in> set (first_occurrences ks) \<Longrightarrow> k \<noteq> k' \<Longrightarrow>
   \<not> py_eq k k'"
proof (induction ks)
  case Nil
  then show ?case by simp
next
  case (Cons a ks)
  show ?case
  proof (cases "k = a")
    case True
    with Cons.prems have "k' \<in> set (filter (\<lambda>x. \<not> py_eq a x) (first_occurrences ks))"
      by auto
    with True show ?thesis by simp
  next
    case False
    note ka = this
    show ?thesis
    proof (cases "k' = a")
      case True
      with Cons.prems ka have "k \<in> set (filter (\<lambda>x. \<not> py_eq a x) (first_occurrences ks))"
        by auto
      then have "\<not> py_eq a k" by simp
      then have "\<not> py_eq k a" using py_eq_sym [of k a] by simp
      with True show ?thesis by simp
    next
      case False
      with ka Cons.prems have "k \<in> set (first_occurrences ks)" "k' \<in> set (first_occurrences ks)"
        by auto
      then show ?thesis using Cons.prems(3) by (rule Cons.IH)
    qed
  qed
qed

lemma distinct_first_occurrences: "distinct (first_occurrences ks)"
  by (induction ks) simp_all

lemma first_occurrences_unique:
  "k \<in> set (first_occurrences ks) \<Longrightarrow> k' \<in> set (first_occurrences ks) \<Longrightarrow> py_eq k k' \<Longrightarrow> k = k'"
  using first_occurrences_not_eq by blast

lemma group_step_spec:
  assumes hash: "hashable (attribute_get x attribute)"
  shows "group_step attribute (group_spec attribute metadata) x =
           Inr (group_spec attribute (metadata @ [x]))"
proof -
  let ?get = "\<lambda>r. attribute_get r attribute"
  let ?key = "?get x"
  let ?ks = "first_occurrences (map ?get metadata)"
  let ?f = "\<lambda>k. filter (\<lambda>r. py_eq k (?get r)) metadata"
  show ?thesis
  proof (cases "\<exists>k \<in> set (map ?get metadata). py_eq k ?key")
    case False
    then have no: "\<not> dict_contains (group_spec attribute metadata) ?key"
      using set_first_occurrences [of "map ?get metadata"]
      by (auto simp: dict_contains_iff group_spec_def)
    have empty: "filter (\<lambda>r. py_eq ?key (?get r)) metadata = []"
      using False by (auto simp: filter_empty_conv py_eq_sym)
    have others: "\<forall>k \<in> set ?ks. \<not> py_eq k ?key"
      using False set_first_occurrences [of "map ?get metadata"] by auto
    have "group_spec attribute (metadata @ [x]) = group_spec attribute metadata @ [(?key, [x])]"
      using False others empty by (auto simp: group_spec_def first_occurrences_snoc)
    then show ?thesis
      using no hash by (simp add: group_step_new)
  next
    case True
    then obtain k0 where "k0 \<in> set (map ?get metadata)" "py_eq k0 ?key" by blast
    then obtain k where k: "k \<in> set ?ks" "py_eq k ?key"
      using first_occurrences_covers py_eq_trans by blast
    have uniq: "\<forall>k' \<in> set ?ks. py_eq k' ?key \<longrightarrow> k' = k"
      using k first_occurrences_unique py_eq_trans py_eq_sym by blast
    have get: "dict_get (group_spec attribute metadata) ?key = Some (?f k)"
      unfolding group_spec_def using k uniq by (rule dict_get_map)
    have set: "dict_set (group_spec attribute metadata) ?key (?f k @ [x]) =
               map (\<lambda>k'. (k', if k' = k then ?f k @ [x] else ?f k')) ?ks"
      unfolding group_spec_def using k uniq distinct_first_occurrences by (rule dict_set_map)
    have keys: "first_occurrences (map ?get (metadata @ [x])) = ?ks"
      using True by (simp add: first_occurrences_snoc)
    have "map (\<lambda>k'. (k', filter (\<lambda>r. py_eq k' (?get r)) (metadata @ [x]))) ?ks =
          map (\<lambda>k'. (k', if k' = k then ?f k @ [x] else ?f k')) ?ks"
    proof (rule map_cong [OF refl])
      fix k'
      assume "k' \<in> set ?ks"
      with uniq k(2) have "py_eq k' ?key = (k' = k)" by blast
      then show "(k', filter (\<lambda>r. py_eq k' (?get r)) (metadata @ [x])) =
                 (k', if k' = k then ?f k @ [x] else ?f k')"
        by simp
    qed
    then have "group_spec attribute (metadata @ [x]) =
          map (\<lambda>k'. (k', if k' = k then ?f k @ [x] else ?f k')) ?ks"
      unfolding group_spec_def keys .
    then show ?thesis
      using get set hash by (simp add: group_step_old)
  qed
qed

lemma group_loop_spec:
  "\<forall>r \<in> set metadata. hashable (attribute_get r attribute) \<Longrightarrow>
   group_loop attribute (group_spec attribute pre) metadata =
     Inr (group_spec attribute (pre @ metadata))"
proof (induction metadata arbitrary: pre)
  case Nil
  show ?case by simp
next
  case (Cons x metadata)
  have "hashable (attribute_get x attribute)" using Cons.prems by simp
  then have step: "group_step attribute (group_spec attribute pre) x =
      Inr (group_spec attribute (pre @ [x]))"
    by (rule group_step_spec)
  have "\<forall>r \<in> set metadata. hashable (attribute_get r attribute)" using Cons.prems by simp
  then have "group_loop attribute (group_spec attribute (pre @ [x])) metadata =
      Inr (group_spec attribute ((pre @ [x]) @ metadata))"
    by (rule Cons.IH)
  with step show ?case by simp
qed

lemma group_loop_hashable:
  assumes "\<forall>r \<in> set metadata. hashable (attribute_get r attribute)"
  shows "group_loop attribute [] metadata = Inr (group_spec attribute metadata)"
proof -
  have "group_spec attribute [] = []" by (simp add: group_spec_def)
  with group_loop_spec [OF assms, of "[]"] show ?thesis by simp
qed

lemma group_loop_unhashable:
  "\<exists>r \<in> set metadata. \<not> hashable (attribute_get r attribute) \<Longrightarrow>
   group_loop attribute groups metadata = Inl TypeError"
proof (induction metadata arbitrary: groups)
  case Nil
  then show ?case by simp
next
  case (Cons x metadata)
  show ?case
  proof (cases "group_step attribute groups x")
    case (Inl e)
    then have "e = TypeError" by (rule group_step_error)
    with Inl show ?thesis by simp
  next
    case (Inr groups1)
    have "hashable (attribute_get x attribute)"
    proof (rule ccontr)
      assume "\<not> hashable (attribute_get x attribute)"
      then have "group_step attribute groups x = Inl TypeError" by (rule group_step_unhashable)
      with Inr show False by simp
    qed
    with Cons.prems have "\<exists>r \<in> set metadata. \<not> hashable (attribute_get r attribute)" by auto
    then have "group_loop attribute groups1 metadata = Inl TypeError" by (rule Cons.IH)
    with Inr show ?thesis by simp
  qed
qed

lemma dict_ok_map_filter:
  "dict_ok (map (\<lambda>k. (k, f k)) ks) \<Longrightarrow> dict_ok (map (\<lambda>k. (k, f k)) (filter P ks))"
  by (induction ks) (auto simp: dict_contains_iff)

lemma dict_ok_first_occurrences:
  "\<forall>k \<in> set ks. hashable k \<Longrightarrow> dict_ok (map (\<lambda>k. (k, f k)) (first_occurrences ks))"
proof (induction ks)
  case Nil
  show ?case by simp
next
  case (Cons a ks)
  have "\<not> dict_contains (map (\<lambda>k. (k, f k)) (filter (\<lambda>k'. \<not> py_eq a k') (first_occurrences ks))) a"
    by (auto simp: dict_contains_iff py_eq_sym)
  moreover have "dict_ok (map (\<lambda>k. (k, f k)) (first_occurrences ks))"
    using Cons.prems by (intro Cons.IH) simp
  moreover have "hashable a" using Cons.prems by simp
  ultimately show ?case by (simp add: dict_ok_map_filter)
qed

lemma dict_ok_group_spec:
  assumes "\<forall>r \<in> set metadata. hashable (attribute_get r attribute)"
  shows "dict_ok (group_spec attribute metadata)"
  unfolding group_spec_def using assms by (intro dict_ok_first_occurrences) simp

lemma mset_concat_dict_set:
  "dict_get groups key = Some members \<Longrightarrow>
   mset (concat (map snd (dict_set groups key (members @ [x])))) =
   mset (concat (map snd groups)) + {#x#}"
  by (induction groups) (auto split: if_splits)

lemma mset_concat_group_step:
  assumes "group_step attribute groups x = Inr groups1"
  shows "mset (concat (map snd groups1)) = mset (concat (map snd groups)) + {#x#}"
proof -
  have hash: "hashable (attribute_get x attribute)"
  proof (rule ccontr)
    assume "\<not> hashable (attribute_get x attribute)"
    then have "group_step attribute groups x = Inl TypeError" by (rule group_step_unhashable)
    with assms show False by simp
  qed
  show ?thesis
  proof (cases "dict_get groups (attribute_get x attribute)")
    case None
    then have "\<not> dict_contains groups (attribute_get x attribute)"
      by (simp add: dict_get_None_iff)
    with hash assms have "groups1 = groups @ [(attribute_get x attribute, [x])]"
      by (simp add: group_step_new)
    then show ?thesis by simp
  next
    case (Some members)
    with hash assms have "groups1 = dict_set groups (attribute_get x attribute) (members @ [x])"
      by (simp add: group_step_old)
    with Some show ?thesis by (simp add: mset_concat_dict_set)
  qed
qed

lemma mset_concat_group_spec:
  "\<forall>r \<in> set metadata. hashable (attribute_get r attribute) \<Longrightarrow>
   mset (concat (map snd (group_spec attribute metadata))) = mset metadata"
proof (induction metadata rule: rev_induct)
  case Nil
  show ?case by (simp add: group_spec_def)
next
  case (snoc x metadata)
  have "hashable (attribute_get x attribute)" using snoc.prems by simp
  then have "group_step attribute (group_spec attribute metadata) x =
      Inr (group_spec attribute (metadata @ [x]))"
    by (rule group_step_spec)
  then have "mset (concat (map snd (group_spec attribute (metadata @ [x])))) =
      mset (concat (map snd (group_spec attribute metadata))) + {#x#}"
    by (rule mset_concat_group_step)
  moreover have "mset (concat (map snd (group_spec attribute metadata))) = mset metadata"
    using snoc.prems by (intro snoc.IH) simp
  ultimately show ?case by simp
qed

lemma py_eq_hashable: "py_eq k k' \<Longrightarrow> hashable k = hashable k'"
  by (cases k; cases k') auto

lemma py_eq_PNone: "py_eq k PNone = (k = PNone)" "py_eq PNone k = (k = PNone)"
  by (cases k; auto)+

text \<open>
  C2: for a metadata list in which the values of the grouping attribute can be hashed
  (scalars, not lists), and without sorting (the \<^verbatim>\<open>sort\<close> argument is \<^verbatim>\<open>None\<close> or otherwise
  false), \<^verbatim>\<open>group_metadata\<close> returns a mapping such that the group member lists together
  hold exactly the records of the original list; every member of a group has the grouping
  attribute equal to the key of the group, or lacks it when the key is null; the members of
  a group are the records with that key in their input order; and the keys come in the
  order of their first occurrence and are pairwise unequal. Equality is Python's \<^verbatim>\<open>==\<close>.
  When a record holds a value of the grouping attribute that cannot be hashed, the call
  raises \<^verbatim>\<open>TypeError\<close>.
\<close>

theorem group_metadata_unsorted:
  "(\<not> truthy sort_by \<and> (\<forall>r \<in> set metadata. hashable (attribute_get r attribute)) \<longrightarrow>
     (\<exists>groups. group_metadata metadata attribute sort_by = Inr groups
       \<and> mset (concat (map snd groups)) = mset metadata
       \<and> (\<forall>(k, members) \<in> set groups. \<forall>r \<in> set members.
             (\<exists>v. r attribute = Some v \<and> py_eq v k) \<or> (r attribute = None \<and> k = PNone))
       \<and> (\<forall>(k, members) \<in> set groups.
             members = filter (\<lambda>r. py_eq k (attribute_get r attribute)) metadata)
       \<and> map fst groups = first_occurrences (map (\<lambda>r. attribute_get r attribute) metadata)
       \<and> dict_ok groups))
   \<and> ((\<exists>r \<in> set metadata. \<not> hashable (attribute_get r attribute)) \<longrightarrow>
        group_metadata metadata attribute sort_by = Inl TypeError)"
proof (intro conjI impI)
  assume "\<exists>r \<in> set metadata. \<not> hashable (attribute_get r attribute)"
  then have "group_loop attribute [] metadata = Inl TypeError"
    by (rule group_loop_unhashable)
  then show "group_metadata metadata attribute sort_by = Inl TypeError"
    by (simp add: group_metadata_def)
next
  assume hyp: "\<not> truthy sort_by \<and> (\<forall>r \<in> set metadata. hashable (attribute_get r attribute))"
  then have falsy: "\<not> truthy sort_by"
    and hash: "\<forall>r \<in> set metadata. hashable (attribute_get r attribute)"
    by simp_all
  let ?groups = "group_spec attribute metadata"
  have loop: "group_loop attribute [] metadata = Inr ?groups"
    using hash by (rule group_loop_hashable)
  have run: "group_metadata metadata attribute sort_by = Inr ?groups"
    using falsy loop by (simp add: group_metadata_def)
  have members: "\<forall>(k, members) \<in> set ?groups.
      members = filter (\<lambda>r. py_eq k (attribute_get r attribute)) metadata"
    by (auto simp: group_spec_def)
  have attr: "(\<exists>v. r attribute = Some v \<and> py_eq v k) \<or> (r attribute = None \<and> k = PNone)"
    if "(k, members) \<in> set ?groups" "r \<in> set members" for k members r
  proof -
    from that members have "py_eq k (attribute_get r attribute)" by auto
    then show ?thesis
      by (cases "r attribute") (auto simp: attribute_get_def py_eq_PNone py_eq_sym [of k])
  qed
  have keys: "map fst ?groups = first_occurrences (map (\<lambda>r. attribute_get r attribute) metadata)"
    by (simp add: group_spec_def comp_def)
  have ok: "dict_ok ?groups"
    using hash by (rule dict_ok_group_spec)
  have all: "mset (concat (map snd ?groups)) = mset metadata"
    using hash by (rule mset_concat_group_spec)
  show "\<exists>groups. group_metadata metadata attribute sort_by = Inr groups
       \<and> mset (concat (map snd groups)) = mset metadata
       \<and> (\<forall>(k, members) \<in> set groups. \<forall>r \<in> set members.
             (\<exists>v. r attribute = Some v \<and> py_eq v k) \<or> (r attribute = None \<and> k = PNone))
       \<and> (\<forall>(k, members) \<in> set groups.
             members = filter (\<lambda>r. py_eq k (attribute_get r attribute)) metadata)
       \<and> map fst groups = first_occurrences (map (\<lambda>r. attribute_get r attribute) metadata)
       \<and> dict_ok groups"
    using run all attr members keys ok
    by (intro exI [of _ ?groups]) blast
qed

theorem group_metadata_unsorted_witness:
  "\<not> truthy SortNone \<and>
   hashable (attribute_get [''e'' \<mapsto> PInt 1] ''e'') \<and>
   hashable (attribute_get Map.empty ''e'') \<and>
   hashable (attribute_get [''e'' \<mapsto> PBool True] ''e'') \<and>
   (\<exists>groups. group_metadata [[''e'' \<mapsto> PInt 1], Map.empty, [''e'' \<mapsto> PBool True]] ''e'' SortNone
        = Inr groups \<and> map fst groups = [PInt 1, PNone])"
proof -
  have vals: "attribute_get [''e'' \<mapsto> PInt 1] ''e'' = PInt 1"
    "attribute_get Map.empty ''e'' = PNone"
    "attribute_get [''e'' \<mapsto> PBool True] ''e'' = PBool True"
    by (simp_all add: attribute_get_def)
  have h: "\<not> truthy SortNone" by simp
  have hash: "\<forall>r \<in> set [[''e'' \<mapsto> PInt 1], Map.empty, [''e'' \<mapsto> PBool True]].
      hashable (attribute_get r ''e'')"
    by (simp add: vals)
  note inst = group_metadata_unsorted
    [of SortNone "[[''e'' \<mapsto> PInt 1], Map.empty, [''e'' \<mapsto> PBool True]]" "''e''",
     THEN conjunct1, THEN mp, OF conjI [OF h hash]]
  from inst obtain groups where
    run: "group_metadata [[''e'' \<mapsto> PInt 1], Map.empty, [''e'' \<mapsto> PBool True]] ''e'' SortNone
            = Inr groups" and
    keys: "map fst groups = first_occurrences
            (map (\<lambda>r. attribute_get r ''e'') [[''e'' \<mapsto> PInt 1], Map.empty, [''e'' \<mapsto> PBool True]])"
    by blast
  have fo: "first_occurrences
          (map (\<lambda>r. attribute_get r ''e'') [[''e'' \<mapsto> PInt 1], Map.empty, [''e'' \<mapsto> PBool True]])
        = [PInt 1, PNone]"
    by (simp add: vals)
  have keys': "map fst groups = [PInt 1, PNone]"
    using keys unfolding fo .
  have "\<exists>groups. group_metadata [[''e'' \<mapsto> PInt 1], Map.empty, [''e'' \<mapsto> PBool True]] ''e'' SortNone
        = Inr groups \<and> map fst groups = [PInt 1, PNone]"
    by (rule exI [of _ groups], rule conjI [OF run keys'])
  moreover have "hashable (attribute_get [''e'' \<mapsto> PInt 1] ''e'')"
    "hashable (attribute_get Map.empty ''e'')"
    "hashable (attribute_get [''e'' \<mapsto> PBool True] ''e'')"
    by (simp_all add: vals)
  ultimately show ?thesis using h by (intro conjI)
qed

theorem group_metadata_unhashable_counterexample:
  "group_metadata [[''institute'' \<mapsto> PList [PStr ''MOHC'', PStr ''NERC'']]] ''institute'' SortNone
     = Inl TypeError"
  by (simp add: group_metadata_def group_step_def attribute_get_def)

lemma fresh_key_iff:
  "(\<forall>k \<in> S. \<not> py_eq k a) \<longleftrightarrow>
   a \<notin> S \<and> (\<forall>y. y \<in> S \<and> y \<noteq> a \<longrightarrow> \<not> py_eq a y \<and> \<not> py_eq y a)"
proof
  assume fresh: "\<forall>k \<in> S. \<not> py_eq k a"
  have "a \<notin> S"
  proof
    assume "a \<in> S"
    with fresh have "\<not> py_eq a a" by (rule bspec)
    then show False by simp
  qed
  moreover have "\<not> py_eq a y \<and> \<not> py_eq y a" if "y \<in> S" for y
  proof -
    from fresh that have "\<not> py_eq y a" by (rule bspec)
    then show ?thesis using py_eq_sym [of a y] by simp
  qed
  ultimately show "a \<notin> S \<and> (\<forall>y. y \<in> S \<and> y \<noteq> a \<longrightarrow> \<not> py_eq a y \<and> \<not> py_eq y a)"
    by simp
next
  assume rhs: "a \<notin> S \<and> (\<forall>y. y \<in> S \<and> y \<noteq> a \<longrightarrow> \<not> py_eq a y \<and> \<not> py_eq y a)"
  show "\<forall>k \<in> S. \<not> py_eq k a"
  proof
    fix k
    assume "k \<in> S"
    with rhs have "k \<noteq> a" by metis
    with rhs \<open>k \<in> S\<close> show "\<not> py_eq k a" by metis
  qed
qed

lemma dict_ok_iff:
  "dict_ok groups \<longleftrightarrow>
     (\<forall>k \<in> set (map fst groups). hashable k) \<and>
     distinct (map fst groups) \<and> pairwise (\<lambda>k k'. \<not> py_eq k k') (set (map fst groups))"
proof (induction groups)
  case Nil
  show ?case by simp
next
  case (Cons item groups)
  obtain a b where item: "item = (a, b)" by (cases item)
  have "dict_ok (item # groups) =
          (hashable a \<and> (\<forall>k \<in> set (map fst groups). \<not> py_eq k a) \<and> dict_ok groups)"
    unfolding item by (simp add: dict_contains_iff)
  also have "\<dots> = (hashable a \<and> (a \<notin> set (map fst groups) \<and>
        (\<forall>y. y \<in> set (map fst groups) \<and> y \<noteq> a \<longrightarrow> \<not> py_eq a y \<and> \<not> py_eq y a)) \<and>
        (\<forall>k \<in> set (map fst groups). hashable k) \<and>
        distinct (map fst groups) \<and> pairwise (\<lambda>k k'. \<not> py_eq k k') (set (map fst groups)))"
    unfolding fresh_key_iff Cons.IH ..
  also have "\<dots> = ((\<forall>k \<in> set (map fst (item # groups)). hashable k) \<and>
        distinct (map fst (item # groups)) \<and>
        pairwise (\<lambda>k k'. \<not> py_eq k k') (set (map fst (item # groups))))"
    unfolding item by (auto simp: pairwise_insert)
  finally show ?case .
qed

lemma dict_ok_hashable: "dict_ok groups \<Longrightarrow> (k, members) \<in> set groups \<Longrightarrow> hashable k"
proof -
  assume ok: "dict_ok groups" and mem: "(k, members) \<in> set groups"
  from mem have "k \<in> set (map fst groups)" by force
  with ok show "hashable k" unfolding dict_ok_iff by blast
qed

lemma dict_ok_mset:
  assumes "mset (map fst g) = mset (map fst h)"
  shows "dict_ok g = dict_ok h"
proof -
  have "set (map fst g) = set (map fst h)"
    using assms by (rule mset_eq_setD)
  moreover have "distinct (map fst g) = distinct (map fst h)"
    using assms by (rule mset_eq_imp_distinct_iff)
  ultimately show ?thesis
    unfolding dict_ok_iff by simp
qed

lemma dict_ok_sort_key: "dict_ok (sort_key f groups) = dict_ok groups"
  by (rule dict_ok_mset) simp

lemma dict_ok_map_values:
  "dict_ok (map (\<lambda>(k, members). (k, f members)) groups) = dict_ok groups"
proof (rule dict_ok_mset)
  have "map fst (map (\<lambda>(k, members). (k, f members)) groups) = map fst groups"
    by (induction groups) auto
  then show "mset (map fst (map (\<lambda>(k, members). (k, f members)) groups)) = mset (map fst groups)"
    by (rule arg_cong)
qed

lemma dict_ok_append_fresh:
  assumes "dict_ok (acc @ (k, members) # items)"
  shows "\<not> dict_contains acc k"
proof -
  have "mset (map fst (acc @ (k, members) # items)) = mset (map fst ((k, members) # acc @ items))"
    by simp
  then have "dict_ok ((k, members) # acc @ items)"
    using assms dict_ok_mset by blast
  then show ?thesis by simp
qed

lemma dict_ok_append_move:
  "dict_ok (acc @ (k, members) # items) \<Longrightarrow> dict_ok ((acc @ [(k, other)]) @ items)"
  by (rule dict_ok_mset [THEN iffD1]) simp_all

section \<open>Sorting\<close>

lemma normalized_variable_key_eq: "normalized_variable_key ks = lowercase_key ks"
  by (rule ext) (auto simp: normalized_variable_key_def lowercase_key_def attribute_string_def
      split: option.splits)

lemma lower_char_idem: "lower_char (lower_char c) = lower_char c"
  by (cases c) (auto simp: lower_char_def less_eq_char_def)

lemma lower_idem: "lower (lower s) = lower s"
  by (simp add: lower_def lower_char_idem)

lemma lowercase_key_missing: "r k = None \<Longrightarrow> lowercase_key [k] r = [[]]"
  by (simp add: lowercase_key_def attribute_string_def lower_def)

lemma lowercase_key_case:
  "lower s = lower t \<Longrightarrow>
   lowercase_key ks (r(k \<mapsto> PStr s)) = lowercase_key ks (r(k \<mapsto> PStr t))"
  by (simp add: lowercase_key_def attribute_string_def)

text \<open>
  C7: for a list of sort keys (a single key stands for the one-element list),
  \<^verbatim>\<open>sorted_metadata\<close> returns a permutation of the input that is sorted by the tuple of
  lower case string representations of the requested attributes, a missing attribute
  counting as the empty string, strings that differ in case only giving the same key; it
  is stable: the records with one key appear in their input order.
\<close>

theorem sorted_metadata_stable:
  "(\<exists>out. sorted_metadata metadata (SortList ks) = Inr out
      \<and> mset out = mset metadata
      \<and> sorted (map (lowercase_key ks) out)
      \<and> (\<forall>key. filter (\<lambda>r. lowercase_key ks r = key) out =
                 filter (\<lambda>r. lowercase_key ks r = key) metadata))
   \<and> sorted_metadata metadata (SortStr k) = sorted_metadata metadata (SortList [k])
   \<and> (r k = None \<longrightarrow> lowercase_key [k] r = [[]])
   \<and> (lower s = lower t \<longrightarrow>
        lowercase_key ks (r(k \<mapsto> PStr s)) = lowercase_key ks (r(k \<mapsto> PStr t)))"
proof (intro conjI impI)
  show "\<exists>out. sorted_metadata metadata (SortList ks) = Inr out
      \<and> mset out = mset metadata
      \<and> sorted (map (lowercase_key ks) out)
      \<and> (\<forall>key. filter (\<lambda>r. lowercase_key ks r = key) out =
                 filter (\<lambda>r. lowercase_key ks r = key) metadata)"
    by (simp add: normalized_variable_key_eq sort_key_stable)
  show "sorted_metadata metadata (SortStr k) = sorted_metadata metadata (SortList [k])"
    by simp
  show "lowercase_key [k] r = [[]]" if "r k = None"
    using that by (rule lowercase_key_missing)
  show "lowercase_key ks (r(k \<mapsto> PStr s)) = lowercase_key ks (r(k \<mapsto> PStr t))"
    if "lower s = lower t"
    using that by (rule lowercase_key_case)
qed

text \<open>
  C8: sorting is idempotent: when \<^verbatim>\<open>sorted_metadata\<close> returns a list, sorting that list
  again with the same sort keys returns it unchanged; for a key or a list of keys it
  always returns.
\<close>

theorem sorted_metadata_idempotent:
  "(sorted_metadata metadata sort_by = Inr out \<longrightarrow> sorted_metadata out sort_by = Inr out)
   \<and> (\<exists>out. sorted_metadata metadata (SortStr k) = Inr out)
   \<and> (\<exists>out. sorted_metadata metadata (SortList ks) = Inr out)"
proof (intro conjI impI)
  assume run: "sorted_metadata metadata sort_by = Inr out"
  show "sorted_metadata out sort_by = Inr out"
  proof (cases sort_by)
    case SortNone
    with run show ?thesis by (cases metadata) auto
  next
    case (SortBool b)
    with run show ?thesis by (cases metadata) auto
  next
    case (SortStr s)
    with run show ?thesis by (auto simp: sort_key_id_if_sorted)
  next
    case (SortList l)
    with run show ?thesis by (auto simp: sort_key_id_if_sorted)
  qed
qed simp_all

lemma map_insort_key:
  "map g (insort_key (\<lambda>x. f (g x)) x xs) = insort_key f (g x) (map g xs)"
  by (induction xs) simp_all

lemma map_sort_key: "map g (sort_key (\<lambda>x. f (g x)) xs) = sort_key f (map g xs)"
  by (induction xs) (simp_all add: map_insort_key)

lemma dict_get_member:
  "dict_ok groups \<Longrightarrow> (k, members) \<in> set groups \<Longrightarrow> dict_get groups k = Some members"
proof (induction groups)
  case Nil
  then show ?case by simp
next
  case (Cons item groups)
  obtain a b where item: "item = (a, b)" by (cases item)
  from Cons.prems(1) item have fresh: "\<not> dict_contains groups a" and ok: "dict_ok groups"
    by simp_all
  show ?case
  proof (cases "(k, members) = (a, b)")
    case True
    then show ?thesis using item by simp
  next
    case False
    with Cons.prems(2) item have mem: "(k, members) \<in> set groups" by auto
    then have "k \<in> set (map fst groups)" by force
    with fresh have "\<not> py_eq k a"
      unfolding dict_contains_iff by blast
    then have "\<not> py_eq a k" using py_eq_sym [of a k] by simp
    moreover have "dict_get groups k = Some members"
      using ok mem by (rule Cons.IH)
    ultimately show ?thesis using item by simp
  qed
qed

lemma sort_groups_loop_items:
  assumes srt: "\<And>members. sorted_metadata members sort_by = Inr (srt members)"
    and sub: "set items \<subseteq> set metadata_groups"
    and ok: "dict_ok metadata_groups"
    and fresh: "dict_ok (acc @ items)"
  shows "sort_groups_loop metadata_groups sort_by (map fst items) acc =
           Inr (acc @ map (\<lambda>(k, members). (k, srt members)) items)"
  using sub fresh
proof (induction items arbitrary: acc)
  case Nil
  show ?case by simp
next
  case (Cons item items)
  obtain k members where item: "item = (k, members)" by (cases item)
  have "(k, members) \<in> set metadata_groups"
    using Cons.prems(1) item by simp
  with ok have get: "dict_get metadata_groups k = Some members"
    by (rule dict_get_member)
  have ok_acc: "dict_ok (acc @ (k, members) # items)"
    using Cons.prems(2) item by simp
  then have new: "\<not> dict_contains acc k"
    by (rule dict_ok_append_fresh)
  have ok': "dict_ok ((acc @ [(k, srt members)]) @ items)"
    using ok_acc by (rule dict_ok_append_move)
  have sub': "set items \<subseteq> set metadata_groups"
    using Cons.prems(1) by simp
  have rest: "sort_groups_loop metadata_groups sort_by (map fst items) (acc @ [(k, srt members)]) =
        Inr ((acc @ [(k, srt members)]) @ map (\<lambda>(k, members). (k, srt members)) items)"
    using sub' ok' by (rule Cons.IH)
  have hk: "hashable k"
    using ok \<open>(k, members) \<in> set metadata_groups\<close> by (rule dict_ok_hashable)
  have "sort_groups_loop metadata_groups sort_by (map fst (item # items)) acc =
        sort_groups_loop metadata_groups sort_by (map fst items) (dict_set acc k (srt members))"
    unfolding item by (simp add: get srt hk)
  also have "dict_set acc k (srt members) = acc @ [(k, srt members)]"
    using new by (rule dict_set_new)
  finally show ?case
    unfolding rest item by simp
qed

lemma sort_key_no_keys: "sort_key (normalized_variable_key []) members = members"
  by (rule sort_key_id_if_sorted) (simp add: normalized_variable_key_def sorted_iff_nth_mono)

lemma sorted_group_metadata_closed:
  assumes ok: "dict_ok metadata_groups"
    and srt: "\<And>members. sorted_metadata members
                (if sort_by = SortBool True then SortList [] else sort_by) = Inr (srt members)"
  shows "sorted_group_metadata metadata_groups sort_by =
           Inr (map (\<lambda>(k, members). (k, srt members))
                  (sort_key (\<lambda>item. normalized_group_key (fst item)) metadata_groups))"
proof -
  let ?items = "sort_key (\<lambda>item. normalized_group_key (fst item)) metadata_groups"
  have keys: "sort_key normalized_group_key (map fst metadata_groups) = map fst ?items"
    by (simp add: map_sort_key)
  have sub: "set ?items \<subseteq> set metadata_groups" by simp
  have ok': "dict_ok ([] @ ?items)" using ok by (simp add: dict_ok_sort_key)
  show ?thesis
    unfolding sorted_group_metadata_def Let_def keys
    using sort_groups_loop_items [OF srt sub ok ok'] by simp
qed

text \<open>
  C6: for a group mapping and a sort specification that is \<^verbatim>\<open>True\<close>, an attribute name or
  a list of attribute names, \<^verbatim>\<open>sorted_group_metadata\<close> returns the same keys, ordered by
  their lower case string representation with the null key counting as the empty string;
  unless the sort specification is \<^verbatim>\<open>True\<close>, each member list is the result of
  \<^verbatim>\<open>sorted_metadata\<close> with the given keys, and for \<^verbatim>\<open>True\<close> the member lists are unchanged.
\<close>

theorem sorted_group_metadata_sorted:
  assumes ok: "dict_ok metadata_groups"
    and spec: "sort_by = SortBool True \<or> (\<exists>k. sort_by = SortStr k) \<or> (\<exists>ks. sort_by = SortList ks)"
  shows "\<exists>out. sorted_group_metadata metadata_groups sort_by = Inr out
      \<and> sorted (map (\<lambda>item. normalized_group_key (fst item)) out)
      \<and> mset (map fst out) = mset (map fst metadata_groups)
      \<and> dict_ok out
      \<and> (\<forall>(k, members) \<in> set metadata_groups.
            if sort_by = SortBool True then (k, members) \<in> set out
            else \<exists>s. sorted_metadata members sort_by = Inr s \<and> (k, s) \<in> set out)
      \<and> normalized_group_key PNone = []
      \<and> (\<forall>s. normalized_group_key (PStr s) = lower s)"
proof -
  let ?sort1 = "if sort_by = SortBool True then SortList [] else sort_by"
  define srt where "srt members = (case sorted_metadata members ?sort1 of Inr s \<Rightarrow> s | Inl e \<Rightarrow> [])"
    for members
  have srt: "sorted_metadata members ?sort1 = Inr (srt members)" for members
    using spec by (auto simp: srt_def)
  have srt_True: "srt members = members" if "sort_by = SortBool True" for members
    using that by (simp add: srt_def sort_key_no_keys)
  let ?items = "sort_key (\<lambda>item. normalized_group_key (fst item)) metadata_groups"
  let ?out = "map (\<lambda>(k, members). (k, srt members)) ?items"
  have run: "sorted_group_metadata metadata_groups sort_by = Inr ?out"
    using ok srt by (rule sorted_group_metadata_closed)
  have fst_out: "map fst ?out = map fst ?items"
    by (simp add: comp_def case_prod_beta)
  have "map (\<lambda>item. normalized_group_key (fst item)) ?out = map (\<lambda>item. normalized_group_key (fst item)) ?items"
    by (simp add: comp_def case_prod_beta)
  then have sorted: "sorted (map (\<lambda>item. normalized_group_key (fst item)) ?out)"
    by (simp only: sorted_sort_key)
  have keys: "mset (map fst ?out) = mset (map fst metadata_groups)"
    unfolding fst_out by simp
  have ok_out: "dict_ok ?out"
    using ok by (simp add: dict_ok_map_values dict_ok_sort_key)
  have members: "if sort_by = SortBool True then (k, members) \<in> set ?out
            else \<exists>s. sorted_metadata members sort_by = Inr s \<and> (k, s) \<in> set ?out"
    if "(k, members) \<in> set metadata_groups" for k members
  proof -
    from that have "(k, srt members) \<in> set ?out" by force
    then show ?thesis
      using srt [of members] srt_True [of members] by (auto split: if_splits)
  qed
  have names: "normalized_group_key PNone = []" "\<forall>s. normalized_group_key (PStr s) = lower s"
    by (simp_all add: normalized_group_key_def)
  show ?thesis
    using run sorted keys ok_out members names
    by (intro exI [of _ ?out]) blast
qed

theorem sorted_group_metadata_False_counterexample:
  "sorted_group_metadata [(PStr ''y'', [Map.empty])] (SortBool False) = Inl TypeError"
  by (simp add: sorted_group_metadata_def)

theorem sorted_metadata_stable_witness:
  "Map.empty ''a'' = (None :: pyval option) \<and> lower ''B'' = lower ''b''
   \<and> lowercase_key [''a''] Map.empty = [[]]
   \<and> lowercase_key [''a''] [''a'' \<mapsto> PStr ''B''] = lowercase_key [''a''] [''a'' \<mapsto> PStr ''b'']
   \<and> (\<exists>out. sorted_metadata [[''a'' \<mapsto> PStr ''b''], Map.empty] (SortList [''a'']) = Inr out
         \<and> mset out = mset [[''a'' \<mapsto> PStr ''b''], Map.empty])"
proof -
  have h1: "Map.empty ''a'' = (None :: pyval option)" by simp
  have h2: "lower ''B'' = lower ''b''" by code_simp
  note inst = sorted_metadata_stable
    [of "[[''a'' \<mapsto> PStr ''b''], Map.empty]" "[''a'']" "''a''" Map.empty "''B''" "''b''"]
  from inst h1 have c1: "lowercase_key [''a''] Map.empty = [[]]" by blast
  from inst h2 have c2: "lowercase_key [''a''] [''a'' \<mapsto> PStr ''B''] =
      lowercase_key [''a''] [''a'' \<mapsto> PStr ''b'']" by blast
  from inst have c3: "\<exists>out. sorted_metadata [[''a'' \<mapsto> PStr ''b''], Map.empty] (SortList [''a'']) = Inr out
         \<and> mset out = mset [[''a'' \<mapsto> PStr ''b''], Map.empty]" by blast
  show ?thesis
    by (intro conjI h1 h2 c1 c2 c3)
qed

theorem sorted_metadata_idempotent_witness:
  "sorted_metadata [[''a'' \<mapsto> PStr ''b''], Map.empty] (SortStr ''a'')
     = Inr [Map.empty, [''a'' \<mapsto> PStr ''b'']]
   \<and> sorted_metadata [Map.empty, [''a'' \<mapsto> PStr ''b'']] (SortStr ''a'')
     = Inr [Map.empty, [''a'' \<mapsto> PStr ''b'']]"
proof -
  have k1: "normalized_variable_key [''a''] [''a'' \<mapsto> PStr ''b''] = [''b'']"
    by (simp add: normalized_variable_key_def lower_def lower_char_def)
  have k2: "normalized_variable_key [''a''] Map.empty = [[]]"
    by (simp add: normalized_variable_key_def lower_def)
  have le: "\<not> [''b''] \<le> [[] :: string]" by simp
  have h: "sorted_metadata [[''a'' \<mapsto> PStr ''b''], Map.empty] (SortStr ''a'')
      = Inr [Map.empty, [''a'' \<mapsto> PStr ''b'']]"
    by (simp add: k1 k2 le)
  from sorted_metadata_idempotent
    [of "[[''a'' \<mapsto> PStr ''b''], Map.empty]" "SortStr ''a''" "[Map.empty, [''a'' \<mapsto> PStr ''b'']]"] h
  have "sorted_metadata [Map.empty, [''a'' \<mapsto> PStr ''b'']] (SortStr ''a'')
      = Inr [Map.empty, [''a'' \<mapsto> PStr ''b'']]"
    by (rule conjunct1 [THEN mp])
  with h show ?thesis by (rule conjI)
qed

theorem sorted_group_metadata_sorted_witness:
  "dict_ok [(PStr ''b'', [Map.empty]), (PNone, [])]
   \<and> (\<exists>out. sorted_group_metadata [(PStr ''b'', [Map.empty]), (PNone, [])] (SortBool True) = Inr out
         \<and> sorted (map (\<lambda>item. normalized_group_key (fst item)) out)
         \<and> (PNone, []) \<in> set out)"
proof -
  have ok: "dict_ok [(PStr ''b'', [Map.empty]), (PNone, [])]" by simp
  have spec: "SortBool True = SortBool True \<or> (\<exists>k. SortBool True = SortStr k)
      \<or> (\<exists>ks. SortBool True = SortList ks)" by simp
  from sorted_group_metadata_sorted [OF ok spec] obtain out where
    run: "sorted_group_metadata [(PStr ''b'', [Map.empty]), (PNone, [])] (SortBool True) = Inr out"
    and srt: "sorted (map (\<lambda>item. normalized_group_key (fst item)) out)"
    and mem: "\<forall>(k, members) \<in> set [(PStr ''b'', [Map.empty]), (PNone, [])].
            if SortBool True = SortBool True then (k, members) \<in> set out
            else \<exists>s. sorted_metadata members (SortBool True) = Inr s \<and> (k, s) \<in> set out"
    by blast
  from mem have "(PNone, []) \<in> set out" by simp
  with run srt have "sorted_group_metadata [(PStr ''b'', [Map.empty]), (PNone, [])] (SortBool True) = Inr out
         \<and> sorted (map (\<lambda>item. normalized_group_key (fst item)) out)
         \<and> (PNone, []) \<in> set out" by simp
  then have "\<exists>out. sorted_group_metadata [(PStr ''b'', [Map.empty]), (PNone, [])] (SortBool True) = Inr out
         \<and> sorted (map (\<lambda>item. normalized_group_key (fst item)) out)
         \<and> (PNone, []) \<in> set out" by (rule exI)
  with ok show ?thesis by (rule conjI)
qed

section \<open>Logging provenance\<close>

text \<open>
  C3: within one session, a \<^verbatim>\<open>log\<close> call for a filename already in the table raises
  \<^verbatim>\<open>KeyError\<close> with the message naming the file, so that the second of two calls with one
  filename always raises; a call for a new filename succeeds and adds the mapping from
  the filename to the record, leaving the other entries as they were.
\<close>

theorem ProvenanceLogger_log_once:
  "fst (ProvenanceLogger_log filename record2 (snd (ProvenanceLogger_log filename record1 self)))
     = Some (KeyError (''Provenance record for '' @ filename @ '' already exists.''))
   \<and> (table self filename \<noteq> None \<longrightarrow>
        fst (ProvenanceLogger_log filename record self)
          = Some (KeyError (''Provenance record for '' @ filename @ '' already exists.'')))
   \<and> (table self filename = None \<longrightarrow>
        ProvenanceLogger_log filename record self
          = (None, self\<lparr>table := (table self)(filename \<mapsto> record)\<rparr>))"
  by (simp add: ProvenanceLogger_log_def)

text \<open>
  C10: a \<^verbatim>\<open>log\<close> call that raises leaves the object as it was: the table is unchanged and
  the record already stored for the filename is still there.
\<close>

theorem ProvenanceLogger_log_atomic:
  "(fst (ProvenanceLogger_log filename record self) \<noteq> None \<longrightarrow>
      snd (ProvenanceLogger_log filename record self) = self)
   \<and> (table self filename = Some old \<longrightarrow>
      ProvenanceLogger_log filename record self
        = (Some (KeyError (''Provenance record for '' @ filename @ '' already exists.'')), self)
      \<and> table (snd (ProvenanceLogger_log filename record self)) filename = Some old)"
  by (simp add: ProvenanceLogger_log_def)

text \<open>
  C4: with the empty string as \<^verbatim>\<open>work_dir\<close> the log file lies in the current directory
  and \<^verbatim>\<open>os.path.dirname\<close> gives the empty string for it; \<^verbatim>\<open>_save\<close> then calls
  \<^verbatim>\<open>os.makedirs('')\<close>, which raises, and the table is not written although the \<^verbatim>\<open>log\<close> call
  of the body succeeded.
\<close>

theorem ProvenanceLogger_empty_work_dir:
  "with_ProvenanceLogger (\<lambda>t. True)
     \<lparr>work_dir = [], plot_dir = ''p'', write_netcdf = True, write_plots = True\<rparr>
     [(''f'', 1::nat)] \<lparr>dirs = {}, files = Map.empty\<rparr>
   = (Some (FileNotFoundError []), \<lparr>dirs = {}, files = Map.empty\<rparr>)
   \<and> fst (log_calls (Logger \<lparr>log_file = ''diagnostic_provenance.yml'', table = Map.empty\<rparr>)
        [(''f'', 1::nat)]) = None"
proof -
  let ?c = "\<lparr>work_dir = [], plot_dir = ''p'', write_netcdf = True, write_plots = True\<rparr>"
  let ?fs = "\<lparr>dirs = {}, files = (Map.empty :: string \<rightharpoonup> nat yaml)\<rparr>"
  let ?self = "\<lparr>log_file = ''diagnostic_provenance.yml'', table = (Map.empty :: string \<rightharpoonup> nat)\<rparr>"
  let ?self1 = "\<lparr>log_file = ''diagnostic_provenance.yml'', table = [''f'' \<mapsto> 1::nat]\<rparr>"
  have path: "os_path_join (work_dir ?c) ''diagnostic_provenance.yml'' = ''diagnostic_provenance.yml''"
    by (simp add: os_path_join_def)
  have init: "ProvenanceLogger_init ?c ?fs = Inr (Logger ?self)"
    unfolding ProvenanceLogger_init_def Let_def path by (simp add: os_path_exists_def)
  have calls: "log_calls (Logger ?self) [(''f'', 1)] = (None, Logger ?self1)"
    by (simp add: ProvenanceLogger_log_def)
  have dir: "os_path_dirname (logger_file (Logger ?self1)) = []"
    by (simp add: os_path_dirname_def)
  have save: "ProvenanceLogger_save (\<lambda>t. True) (Logger ?self1) ?fs = (Some (FileNotFoundError []), ?fs)"
    unfolding ProvenanceLogger_save_def Let_def dir
    by (simp add: os_path_exists_def os_makedirs_def)
  have exit: "ProvenanceLogger_exit (\<lambda>t. True) (Logger ?self1) None ?fs
      = (Some (FileNotFoundError []), ?fs)"
    unfolding ProvenanceLogger_exit_def by (rule save)
  have whole: "with_ProvenanceLogger (\<lambda>t. True) ?c [(''f'', 1)] ?fs
      = (Some (FileNotFoundError []), ?fs)"
    using init calls exit by (simp add: with_ProvenanceLogger_def)
  have "fst (log_calls (Logger ?self) [(''f'', 1)]) = None"
    unfolding calls by (simp only: fst_conv)
  with whole show ?thesis by (rule conjI)
qed

text \<open>
  A second way to lose the table: the log file holds an entry, the body logs a record that
  \<^verbatim>\<open>yaml.safe_dump\<close> cannot represent, and \<^verbatim>\<open>_save\<close> has emptied the file when the dump
  raises.
\<close>

lemma ProvenanceLogger_dump_fails:
  "with_ProvenanceLogger (\<lambda>t. t ''g'' = None)
     \<lparr>work_dir = ''w'', plot_dir = ''p'', write_netcdf = True, write_plots = True\<rparr>
     [(''g'', 2::nat)]
     \<lparr>dirs = {''w''}, files = [''w/diagnostic_provenance.yml'' \<mapsto> Mapping [''f'' \<mapsto> 1]]\<rparr>
   = (Some RepresenterError,
      \<lparr>dirs = {''w''}, files = [''w/diagnostic_provenance.yml'' \<mapsto> Null]\<rparr>)"
proof -
  let ?c = "\<lparr>work_dir = ''w'', plot_dir = ''p'', write_netcdf = True, write_plots = True\<rparr>"
  let ?path = "''w/diagnostic_provenance.yml''"
  let ?fs = "\<lparr>dirs = {''w''}, files = [?path \<mapsto> Mapping [''f'' \<mapsto> 1::nat]]\<rparr>"
  let ?self = "\<lparr>log_file = ?path, table = [''f'' \<mapsto> 1::nat]\<rparr>"
  let ?self1 = "\<lparr>log_file = ?path, table = [''f'' \<mapsto> 1::nat, ''g'' \<mapsto> 2]\<rparr>"
  have path: "os_path_join (work_dir ?c) ''diagnostic_provenance.yml'' = ?path"
    by (simp add: os_path_join_def)
  have init: "ProvenanceLogger_init ?c ?fs = Inr (Logger ?self)"
    unfolding ProvenanceLogger_init_def Let_def path
    by (simp add: os_path_exists_def open_read_def)
  have calls: "log_calls (Logger ?self) [(''g'', 2)] = (None, Logger ?self1)"
    by (simp add: ProvenanceLogger_log_def)
  have lf: "logger_file (Logger ?self1) = ?path" by simp
  have dir: "os_path_dirname ?path = ''w''"
    by (simp add: os_path_dirname_def rstrip_slash_def)
  have dump: "yaml_safe_dump (\<lambda>t. t ''g'' = None) (Logger ?self1) = Inl RepresenterError"
    by (simp add: yaml_safe_dump_def)
  have "open_write ?path Null ?fs = (None, \<lparr>dirs = {''w''}, files = [?path \<mapsto> Null]\<rparr>)"
    using dir by (simp add: open_write_def)
  then have save: "ProvenanceLogger_save (\<lambda>t. t ''g'' = None) (Logger ?self1) ?fs
      = (Some RepresenterError, \<lparr>dirs = {''w''}, files = [?path \<mapsto> Null]\<rparr>)"
    unfolding ProvenanceLogger_save_def Let_def lf dir dump
    by (simp add: os_path_exists_def)
  have exit: "ProvenanceLogger_exit (\<lambda>t. t ''g'' = None) (Logger ?self1) None ?fs
      = (Some RepresenterError, \<lparr>dirs = {''w''}, files = [?path \<mapsto> Null]\<rparr>)"
    unfolding ProvenanceLogger_exit_def by (rule save)
  show ?thesis
    using init calls exit by (simp add: with_ProvenanceLogger_def)
qed

section \<open>Output directories\<close>

lemma os_makedirs_cases:
  "os_makedirs d fs = (r, fs1) \<Longrightarrow>
     (r \<noteq> None \<and> fs1 = fs) \<or>
     (r = None \<and> \<not> os_path_exists fs d \<and>
      fs1 = fs\<lparr>dirs := insert d (dirs fs) \<union> set (ancestors d)\<rparr>)"
  by (auto simp: os_makedirs_def os_path_exists_def split: if_splits)

lemma os_path_exists_mono:
  "os_path_exists fs p \<Longrightarrow> dirs fs \<subseteq> ds \<Longrightarrow> os_path_exists (fs\<lparr>dirs := ds\<rparr>) p"
  by (auto simp: os_path_exists_def)

lemma os_makedirs_existing:
  "os_path_exists fs d \<Longrightarrow> \<exists>e. os_makedirs d fs = (Some e, fs)"
  by (simp add: os_makedirs_def os_path_exists_def)

lemma create_directories_keeps:
  "create_directories False ds (fs, logged) = (r, fs1, logged1) \<Longrightarrow>
     files fs1 = files fs \<and> dirs fs \<subseteq> dirs fs1 \<and>
     (\<exists>more. logged1 = logged @ map Info_Creating more) \<and>
     ((\<exists>d \<in> set ds. os_path_exists fs d) \<longrightarrow> r \<noteq> None)"
proof (induction ds arbitrary: fs logged)
  case Nil
  then have "fs1 = fs" "logged1 = logged" by simp_all
  then show ?case by simp
next
  case (Cons d ds)
  obtain r0 fs0 where mk: "os_makedirs d fs = (r0, fs0)" by (cases "os_makedirs d fs")
  show ?case
  proof (cases r0)
    case (Some e)
    with mk have same: "fs0 = fs" using os_makedirs_cases [OF mk] by simp
    from Cons.prems mk Some same have res: "r = Some e" "fs1 = fs" "logged1 = logged @ [Info_Creating d]"
      by simp_all
    have "logged1 = logged @ map Info_Creating [d]" using res(3) by simp
    then have "\<exists>more. logged1 = logged @ map Info_Creating more" by (rule exI)
    with res(1,2) show ?thesis by simp
  next
    case None
    with os_makedirs_cases [OF mk] have nex: "\<not> os_path_exists fs d"
      and fs0: "fs0 = fs\<lparr>dirs := insert d (dirs fs) \<union> set (ancestors d)\<rparr>" by simp_all
    from Cons.prems mk None have
      rest: "create_directories False ds (fs0, logged @ [Info_Creating d]) = (r, fs1, logged1)"
      by simp
    from Cons.IH [OF rest] have files: "files fs1 = files fs0" and dirs: "dirs fs0 \<subseteq> dirs fs1"
      and log: "\<exists>more. logged1 = (logged @ [Info_Creating d]) @ map Info_Creating more"
      and abort: "(\<exists>d' \<in> set ds. os_path_exists fs0 d') \<longrightarrow> r \<noteq> None"
      by simp_all
    have c1: "files fs1 = files fs" using files fs0 by simp
    have c2: "dirs fs \<subseteq> dirs fs1" using dirs fs0 by auto
    from log obtain more where "logged1 = (logged @ [Info_Creating d]) @ map Info_Creating more"
      by blast
    then have "logged1 = logged @ map Info_Creating (d # more)" by simp
    then have c3: "\<exists>more. logged1 = logged @ map Info_Creating more" by blast
    have c4: "r \<noteq> None" if "\<exists>d' \<in> set (d # ds). os_path_exists fs d'"
    proof -
      from that nex obtain d' where "d' \<in> set ds" "os_path_exists fs d'" by auto
      then have "os_path_exists fs0 d'" unfolding fs0 by (intro os_path_exists_mono) auto
      with \<open>d' \<in> set ds\<close> abort show ?thesis by blast
    qed
    show ?thesis using c1 c2 c3 c4 by blast
  qed
qed

text \<open>
  C5: when an output directory exists and neither \<^verbatim>\<open>--force\<close> nor \<^verbatim>\<open>--ignore-existing\<close> was
  given, \<^verbatim>\<open>run_diagnostic\<close> logs the error naming the existing directories and ends with an
  exception before \<^verbatim>\<open>yield cfg\<close>; nothing is removed, no file is changed, and the only
  other messages are those of creating directories.
\<close>

theorem run_diagnostic_fails_closed:
  assumes existing: "\<exists>d \<in> set (output_directories c). os_path_exists fs d"
    and flags: "\<not> force a" "\<not> ignore_existing a"
  shows "\<exists>e fs1 more. run_diagnostic c a fs =
           (Some e, fs1,
            Error_Script_will_abort (filter (os_path_exists fs) (output_directories c))
              # map Info_Creating more)
         \<and> files fs1 = files fs \<and> dirs fs \<subseteq> dirs fs1"
proof -
  let ?existing = "filter (os_path_exists fs) (output_directories c)"
  from existing have ne: "?existing \<noteq> []"
    by (simp add: filter_empty_conv)
  obtain r fs1 logged1 where
    run: "create_directories False (output_directories c) (fs, [Error_Script_will_abort ?existing])
            = (r, fs1, logged1)"
    by (metis prod_cases3)
  have whole: "run_diagnostic c a fs = (r, fs1, logged1)"
    using ne flags run by (simp add: run_diagnostic_def Let_def)
  from create_directories_keeps [OF run] existing obtain more where
    keep: "files fs1 = files fs" "dirs fs \<subseteq> dirs fs1"
    and log: "logged1 = [Error_Script_will_abort ?existing] @ map Info_Creating more"
    and abort: "r \<noteq> None"
    by blast
  from abort obtain e where e: "r = Some e" by blast
  have "run_diagnostic c a fs = (Some e, fs1, Error_Script_will_abort ?existing # map Info_Creating more)"
    using whole e log by simp
  with keep show ?thesis by blast
qed

section \<open>Observation data\<close>

lemma T63_file_ok: "wd \<noteq> [] \<Longrightarrow> \<exists>newfile. T63_file wd rf aux = Inr newfile"
  by (simp add: T63_file_def Let_def)

lemma T63_file_error: "T63_file wd rf aux = Inl e \<Longrightarrow> e = IndexError"
  by (simp add: T63_file_def Let_def split: if_splits)

lemma alb_unsupported:
  assumes "diag_work_dir self \<noteq> []" "proj_var \<noteq> ''alb''"
  shows "fst (alb_load_observation_data load_cci_generic lat lon proj_var self)
           = Some (AssertionError ''Not supported yet'')"
    and "ref_data (snd (alb_load_observation_data load_cci_generic lat lon proj_var self))
           = ref_data self"
proof -
  from assms(1) obtain newfile where
    "T63_file (diag_work_dir self) (ref_file self) ''AUX_Files_alb_QA4ECV'' = Inr newfile"
    using T63_file_ok by blast
  then have run: "alb_load_observation_data load_cci_generic lat lon proj_var self =
      (Some (AssertionError ''Not supported yet''),
       if \<not> known_grid lat lon then self\<lparr>ref_file := newfile\<rparr> else self)"
    using assms(2) by (simp add: alb_load_observation_data_def Let_def)
  show "fst (alb_load_observation_data load_cci_generic lat lon proj_var self)
           = Some (AssertionError ''Not supported yet'')"
    unfolding run by (simp only: fst_conv)
  show "ref_data (snd (alb_load_observation_data load_cci_generic lat lon proj_var self))
           = ref_data self"
    unfolding run by simp
qed

lemma alb_supported:
  "fst (alb_load_observation_data load_cci_generic lat lon ''alb'' self)
     \<noteq> Some (AssertionError m)"
  "diag_work_dir self \<noteq> [] \<Longrightarrow>
     fst (alb_load_observation_data load_cci_generic lat lon ''alb'' self) = None"
proof -
  show "fst (alb_load_observation_data load_cci_generic lat lon ''alb'' self)
     \<noteq> Some (AssertionError m)"
  proof (cases "T63_file (diag_work_dir self) (ref_file self) ''AUX_Files_alb_QA4ECV''")
    case (Inl e)
    then have "e = IndexError" by (rule T63_file_error)
    with Inl show ?thesis by (simp add: alb_load_observation_data_def)
  next
    case (Inr newfile)
    then show ?thesis by (simp add: alb_load_observation_data_def Let_def)
  qed
  show "fst (alb_load_observation_data load_cci_generic lat lon ''alb'' self) = None"
    if "diag_work_dir self \<noteq> []"
  proof -
    from that obtain newfile where
      "T63_file (diag_work_dir self) (ref_file self) ''AUX_Files_alb_QA4ECV'' = Inr newfile"
      using T63_file_ok by blast
    then show ?thesis by (simp add: alb_load_observation_data_def Let_def)
  qed
qed

lemma lc_unsupported:
  assumes "diag_work_dir self \<noteq> []"
    and "var self \<notin> set [''baresoilFrac'', ''grassNcropFrac'', ''shrubNtreeFrac'']"
  shows "fst (lc_load_observation_data load_cci_generic lat lon self)
           = Some (AssertionError ''Not supported yet'')"
    and "ref_data (snd (lc_load_observation_data load_cci_generic lat lon self)) = ref_data self"
proof -
  from assms(1) obtain newfile where
    "T63_file (diag_work_dir self) (ref_file self) ''AUX_Files_lc_ESACCI'' = Inr newfile"
    using T63_file_ok by blast
  moreover have "var (if \<not> known_grid lat lon then self\<lparr>ref_file := newfile\<rparr> else self) = var self"
    by simp
  ultimately have run: "lc_load_observation_data load_cci_generic lat lon self =
      (Some (AssertionError ''Not supported yet''),
       if \<not> known_grid lat lon then self\<lparr>ref_file := newfile\<rparr> else self)"
    using assms(2) unfolding lc_load_observation_data_def Let_def
    by (simp only: sum.case if_False)
  show "fst (lc_load_observation_data load_cci_generic lat lon self)
           = Some (AssertionError ''Not supported yet'')"
    unfolding run by (simp only: fst_conv)
  show "ref_data (snd (lc_load_observation_data load_cci_generic lat lon self)) = ref_data self"
    unfolding run by simp
qed

lemma lc_supported:
  assumes "var self \<in> set [''baresoilFrac'', ''grassNcropFrac'', ''shrubNtreeFrac'']"
  shows "fst (lc_load_observation_data load_cci_generic lat lon self) \<noteq> Some (AssertionError m)"
    and "diag_work_dir self \<noteq> [] \<Longrightarrow>
           fst (lc_load_observation_data load_cci_generic lat lon self) = None"
proof -
  have keep: "var (if \<not> known_grid lat lon then self\<lparr>ref_file := newfile\<rparr> else self) = var self"
    for newfile by simp
  have ok: "fst (lc_load_observation_data load_cci_generic lat lon self) = None"
    if "T63_file (diag_work_dir self) (ref_file self) ''AUX_Files_lc_ESACCI'' = Inr newfile"
    for newfile
    using assms unfolding lc_load_observation_data_def Let_def that keep
    by (simp only: sum.case if_True fst_conv)
  show "fst (lc_load_observation_data load_cci_generic lat lon self) \<noteq> Some (AssertionError m)"
  proof (cases "T63_file (diag_work_dir self) (ref_file self) ''AUX_Files_lc_ESACCI''")
    case (Inl e)
    then have "e = IndexError" by (rule T63_file_error)
    with Inl show ?thesis by (simp add: lc_load_observation_data_def)
  next
    case (Inr newfile)
    then show ?thesis using ok by simp
  qed
  show "fst (lc_load_observation_data load_cci_generic lat lon self) = None"
    if "diag_work_dir self \<noteq> []"
  proof -
    from that obtain newfile where
      "T63_file (diag_work_dir self) (ref_file self) ''AUX_Files_lc_ESACCI'' = Inr newfile"
      using T63_file_ok by blast
    then show ?thesis by (rule ok)
  qed
qed

text \<open>
  C9: once the name of the regridded file has been built (the working directory is not the
  empty string), \<^verbatim>\<open>_load_observation_data\<close> of the albedo diagnostic ends with the
  \<^verbatim>\<open>AssertionError\<close> \<^verbatim>\<open>Not supported yet\<close> whenever the variable is not \<^verbatim>\<open>alb\<close>, and that of
  the land cover diagnostic whenever the variable is none of \<^verbatim>\<open>baresoilFrac\<close>,
  \<^verbatim>\<open>grassNcropFrac\<close>, \<^verbatim>\<open>shrubNtreeFrac\<close>; the reference data are not set then. For a
  supported variable no assertion is raised and the data are loaded.
\<close>

theorem load_observation_data_asserts:
  "(diag_work_dir self \<noteq> [] \<and> proj_var \<noteq> ''alb'' \<longrightarrow>
      fst (alb_load_observation_data load_cci_generic lat lon proj_var self)
        = Some (AssertionError ''Not supported yet'')
      \<and> ref_data (snd (alb_load_observation_data load_cci_generic lat lon proj_var self))
        = ref_data self)
   \<and> (\<forall>m. fst (alb_load_observation_data load_cci_generic lat lon ''alb'' self)
          \<noteq> Some (AssertionError m))
   \<and> (diag_work_dir self \<noteq> [] \<longrightarrow>
        fst (alb_load_observation_data load_cci_generic lat lon ''alb'' self) = None)
   \<and> (diag_work_dir self \<noteq> []
        \<and> var self \<notin> set [''baresoilFrac'', ''grassNcropFrac'', ''shrubNtreeFrac''] \<longrightarrow>
      fst (lc_load_observation_data load_cci_generic lat lon self)
        = Some (AssertionError ''Not supported yet'')
      \<and> ref_data (snd (lc_load_observation_data load_cci_generic lat lon self)) = ref_data self)
   \<and> (var self \<in> set [''baresoilFrac'', ''grassNcropFrac'', ''shrubNtreeFrac''] \<longrightarrow>
        (\<forall>m. fst (lc_load_observation_data load_cci_generic lat lon self)
           \<noteq> Some (AssertionError m))
        \<and> (diag_work_dir self \<noteq> [] \<longrightarrow>
             fst (lc_load_observation_data load_cci_generic lat lon self) = None))"
proof (intro conjI impI allI)
  show "fst (alb_load_observation_data load_cci_generic lat lon proj_var self)
        = Some (AssertionError ''Not supported yet'')"
    if "diag_work_dir self \<noteq> [] \<and> proj_var \<noteq> ''alb''"
    using that by (intro alb_unsupported) simp_all
  show "ref_data (snd (alb_load_observation_data load_cci_generic lat lon proj_var self))
        = ref_data self"
    if "diag_work_dir self \<noteq> [] \<and> proj_var \<noteq> ''alb''"
    using that by (intro alb_unsupported) simp_all
  show "fst (alb_load_observation_data load_cci_generic lat lon ''alb'' self)
          \<noteq> Some (AssertionError m)" for m
    by (rule alb_supported)
  show "fst (alb_load_observation_data load_cci_generic lat lon ''alb'' self) = None"
    if "diag_work_dir self \<noteq> []"
    using that by (rule alb_supported)
  show "fst (lc_load_observation_data load_cci_generic lat lon self)
        = Some (AssertionError ''Not supported yet'')"
    if "diag_work_dir self \<noteq> []
        \<and> var self \<notin> set [''baresoilFrac'', ''grassNcropFrac'', ''shrubNtreeFrac'']"
    using that by (intro lc_unsupported) (rule conjunct1, assumption, rule conjunct2, assumption)
  show "ref_data (snd (lc_load_observation_data load_cci_generic lat lon self)) = ref_data self"
    if "diag_work_dir self \<noteq> []
        \<and> var self \<notin> set [''baresoilFrac'', ''grassNcropFrac'', ''shrubNtreeFrac'']"
    using that by (intro lc_unsupported) (rule conjunct1, assumption, rule conjunct2, assumption)
  show "fst (lc_load_observation_data load_cci_generic lat lon self) \<noteq> Some (AssertionError m)"
    if "var self \<in> set [''baresoilFrac'', ''grassNcropFrac'', ''shrubNtreeFrac'']" for m
    using that by (rule lc_supported)
  show "fst (lc_load_observation_data load_cci_generic lat lon self) = None"
    if "var self \<in> set [''baresoilFrac'', ''grassNcropFrac'', ''shrubNtreeFrac'']"
      "diag_work_dir self \<noteq> []"
    using that by (rule lc_supported)
qed

section \<open>Instances\<close>

theorem ProvenanceLogger_log_once_witness:
  "table \<lparr>log_file = ''p'', table = [''f'' \<mapsto> (1::nat)]\<rparr> ''f'' \<noteq> None
   \<and> fst (ProvenanceLogger_log ''f'' 2 \<lparr>log_file = ''p'', table = [''f'' \<mapsto> (1::nat)]\<rparr>)
       = Some (KeyError ''Provenance record for f already exists.'')
   \<and> table \<lparr>log_file = ''p'', table = [''f'' \<mapsto> (1::nat)]\<rparr> ''g'' = None
   \<and> fst (ProvenanceLogger_log ''g'' 2 \<lparr>log_file = ''p'', table = [''f'' \<mapsto> (1::nat)]\<rparr>) = None"
proof -
  let ?self = "\<lparr>log_file = ''p'', table = [''f'' \<mapsto> (1::nat)]\<rparr>"
  have h1: "table ?self ''f'' \<noteq> None" by simp
  have h2: "table ?self ''g'' = None" by simp
  from ProvenanceLogger_log_once [of "''f''" 2 2 ?self 2] h1
  have "fst (ProvenanceLogger_log ''f'' 2 ?self)
          = Some (KeyError (''Provenance record for '' @ ''f'' @ '' already exists.''))"
    by blast
  then have c1: "fst (ProvenanceLogger_log ''f'' 2 ?self)
          = Some (KeyError ''Provenance record for f already exists.'')"
    by simp
  from ProvenanceLogger_log_once [of "''g''" 2 2 ?self 2] h2
  have "ProvenanceLogger_log ''g'' 2 ?self = (None, ?self\<lparr>table := (table ?self)(''g'' \<mapsto> 2)\<rparr>)"
    by blast
  then have c2: "fst (ProvenanceLogger_log ''g'' 2 ?self) = None"
    by (simp only: fst_conv)
  show ?thesis
    by (intro conjI h1 c1 h2 c2)
qed

theorem ProvenanceLogger_log_atomic_witness:
  "table \<lparr>log_file = ''p'', table = [''f'' \<mapsto> (1::nat)]\<rparr> ''f'' = Some 1
   \<and> snd (ProvenanceLogger_log ''f'' 2 \<lparr>log_file = ''p'', table = [''f'' \<mapsto> (1::nat)]\<rparr>)
       = \<lparr>log_file = ''p'', table = [''f'' \<mapsto> (1::nat)]\<rparr>"
proof -
  let ?self = "\<lparr>log_file = ''p'', table = [''f'' \<mapsto> (1::nat)]\<rparr>"
  have h: "table ?self ''f'' = Some 1" by simp
  from ProvenanceLogger_log_atomic [of "''f''" 2 ?self 1] h
  have "ProvenanceLogger_log ''f'' 2 ?self
        = (Some (KeyError (''Provenance record for '' @ ''f'' @ '' already exists.'')), ?self)"
    by blast
  then have "snd (ProvenanceLogger_log ''f'' 2 ?self) = ?self"
    by (simp only: snd_conv)
  with h show ?thesis by (rule conjI)
qed

theorem load_observation_data_asserts_witness:
  "fst (alb_load_observation_data (\<lambda>f v. ()) 96 192 ''x''
          \<lparr>ref_file = ''r'', diag_work_dir = ''w'', var = ''x'', ref_data = None\<rparr>)
     = Some (AssertionError ''Not supported yet'')
   \<and> fst (lc_load_observation_data (\<lambda>f v. ()) 96 192
          \<lparr>ref_file = ''r'', diag_work_dir = ''w'', var = ''x'', ref_data = None\<rparr>)
     = Some (AssertionError ''Not supported yet'')
   \<and> fst (lc_load_observation_data (\<lambda>f v. ()) 96 192
          \<lparr>ref_file = ''r'', diag_work_dir = ''w'', var = ''baresoilFrac'', ref_data = None\<rparr>)
     = None"
proof -
  let ?self = "\<lparr>ref_file = ''r'', diag_work_dir = ''w'', var = ''x'', ref_data = None\<rparr>
                 :: unit diagnostic"
  let ?self2 = "\<lparr>ref_file = ''r'', diag_work_dir = ''w'', var = ''baresoilFrac'', ref_data = None\<rparr>
                 :: unit diagnostic"
  have h1: "diag_work_dir ?self \<noteq> [] \<and> ''x'' \<noteq> ''alb''" by simp
  have h2: "diag_work_dir ?self \<noteq> []
        \<and> var ?self \<notin> set [''baresoilFrac'', ''grassNcropFrac'', ''shrubNtreeFrac'']" by simp
  have h3: "var ?self2 \<in> set [''baresoilFrac'', ''grassNcropFrac'', ''shrubNtreeFrac'']" by simp
  have h4: "diag_work_dir ?self2 \<noteq> []" by simp
  note i1 = load_observation_data_asserts [of ?self "''x''" "\<lambda>f v. ()" 96 192]
  note i2 = load_observation_data_asserts [of ?self2 "''x''" "\<lambda>f v. ()" 96 192]
  from i1 h1 have c1: "fst (alb_load_observation_data (\<lambda>f v. ()) 96 192 ''x'' ?self)
     = Some (AssertionError ''Not supported yet'')" by blast
  from i1 h2 have c2: "fst (lc_load_observation_data (\<lambda>f v. ()) 96 192 ?self)
     = Some (AssertionError ''Not supported yet'')" by blast
  from i2 h3 h4 have c3: "fst (lc_load_observation_data (\<lambda>f v. ()) 96 192 ?self2) = None"
    by blast
  show ?thesis by (intro conjI c1 c2 c3)
qed

theorem run_diagnostic_fails_closed_witness:
  "(\<exists>d \<in> set (output_directories
        \<lparr>work_dir = ''w'', plot_dir = ''p'', write_netcdf = True, write_plots = True\<rparr>).
      os_path_exists \<lparr>dirs = {''p''}, files = (Map.empty :: string \<rightharpoonup> unit)\<rparr> d)
   \<and> (\<exists>e fs1 more.
        run_diagnostic \<lparr>work_dir = ''w'', plot_dir = ''p'', write_netcdf = True, write_plots = True\<rparr>
          \<lparr>force = False, ignore_existing = False\<rparr>
          \<lparr>dirs = {''p''}, files = (Map.empty :: string \<rightharpoonup> unit)\<rparr>
        = (Some e, fs1, Error_Script_will_abort [''p''] # map Info_Creating more)
        \<and> files fs1 = Map.empty)"
proof -
  let ?c = "\<lparr>work_dir = ''w'', plot_dir = ''p'', write_netcdf = True, write_plots = True\<rparr>"
  let ?a = "\<lparr>force = False, ignore_existing = False\<rparr>"
  let ?fs = "\<lparr>dirs = {''p''}, files = (Map.empty :: string \<rightharpoonup> unit)\<rparr>"
  have dirs: "output_directories ?c = [''w'', ''p'']"
    by (simp add: output_directories_def)
  have ex: "os_path_exists ?fs ''p''" "\<not> os_path_exists ?fs ''w''"
    by (simp_all add: os_path_exists_def)
  have h: "\<exists>d \<in> set (output_directories ?c). os_path_exists ?fs d"
    unfolding dirs using ex(1) by simp
  have flags: "\<not> force ?a" "\<not> ignore_existing ?a" by simp_all
  have existing: "filter (os_path_exists ?fs) (output_directories ?c) = [''p'']"
    unfolding dirs using ex by simp
  from run_diagnostic_fails_closed [OF h flags] obtain e fs1 more where
    run: "run_diagnostic ?c ?a ?fs =
           (Some e, fs1,
            Error_Script_will_abort (filter (os_path_exists ?fs) (output_directories ?c))
              # map Info_Creating more)"
    and keep: "files fs1 = files ?fs"
    by blast
  have run': "run_diagnostic ?c ?a ?fs =
           (Some e, fs1, Error_Script_will_abort [''p''] # map Info_Creating more)"
    using run unfolding existing .
  have keep': "files fs1 = Map.empty" using keep by simp
  have "\<exists>e fs1 more. run_diagnostic ?c ?a ?fs =
           (Some e, fs1, Error_Script_will_abort [''p''] # map Info_Creating more)
        \<and> files fs1 = Map.empty"
    by (intro exI conjI) (rule run', rule keep')
  with h show ?thesis by (rule conjI)
qed

end
